theory Spec2Isabelle
  imports Main "HOL-Library.Sublist"
begin

section \<open>The request pipeline of src/utils/ApiCaller.ts\<close>

text \<open>
  The module keeps one mutable array of cancelables and talks to four collaborators:
  the transport (axios), the response cache (\<^verbatim>\<open>./Cacher\<close>), the request log
  (\<^verbatim>\<open>./ApiLogger\<close>) and the notification store. The model threads one record,
  \<open>world\<close>, through every operation: the array itself plus one trace per collaborator
  (what was dispatched, logged, alerted, navigated to, and which cancel handles were
  invoked). What the browser and the transport decide (the current location, the
  clock, how a dispatched call ends) is an argument of the operation.
\<close>

subsection \<open>JavaScript values\<close>

text \<open>
  Payloads are of type \<^verbatim>\<open>any\<close>. Only their truthiness and a few property reads
  matter to the module, so numbers are integers here (a number is falsy exactly when
  it is zero) and strings are lists of code units.
\<close>

datatype jsvalue =
    JUndefined
  | JNull
  | JBool bool
  | JNum int
  | JStr string
  | JArr "jsvalue list"
  | JObj "(string \<times> jsvalue) list"

fun truthy :: "jsvalue \<Rightarrow> bool" where
  "truthy JUndefined = False"
| "truthy JNull = False"
| "truthy (JBool b) = b"
| "truthy (JNum n) = (n \<noteq> 0)"
| "truthy (JStr s) = (s \<noteq> [])"
| "truthy (JArr xs) = True"
| "truthy (JObj kvs) = True"

text \<open>\<^verbatim>\<open>a && b\<close> and \<^verbatim>\<open>a || b\<close> on values.\<close>

definition js_and :: "jsvalue \<Rightarrow> jsvalue \<Rightarrow> jsvalue" where
  "js_and a b = (if truthy a then b else a)"

definition js_or :: "jsvalue \<Rightarrow> jsvalue \<Rightarrow> jsvalue" where
  "js_or a b = (if truthy a then a else b)"

text \<open>
  \<^verbatim>\<open>v.k\<close> for the keys the module reads (\<^verbatim>\<open>error\<close>, \<^verbatim>\<open>message\<close>,
  \<^verbatim>\<open>description\<close>): an object answers with its own property, every other value the
  module reads from is truthy and has no such property.
\<close>

fun get_prop :: "jsvalue \<Rightarrow> string \<Rightarrow> jsvalue" where
  "get_prop (JObj kvs) k = (case map_of kvs k of None \<Rightarrow> JUndefined | Some v \<Rightarrow> v)"
| "get_prop v k = JUndefined"

text \<open>\<^verbatim>\<open>s.indexOf(t)\<close>: the first index at which \<open>t\<close> occurs in \<open>s\<close>, or -1.\<close>

fun indexOf :: "string \<Rightarrow> string \<Rightarrow> int" where
  "indexOf [] t = (if t = [] then 0 else - 1)"
| "indexOf (c # s) t =
     (if prefix t (c # s) then 0
      else (let i = indexOf s t in if i < 0 then - 1 else i + 1))"

text \<open>A status code inside a template literal: its decimal digits.\<close>

definition digit_char :: "nat \<Rightarrow> char" where
  "digit_char d = char_of (48 + d)"

fun string_of_nat :: "nat \<Rightarrow> string" where
  "string_of_nat n =
     (if n < 10 then [digit_char n]
      else string_of_nat (n div 10) @ [digit_char (n mod 10)])"

subsection \<open>Data\<close>

text \<open>
  \<^verbatim>\<open>type Cancelable = { requestId: string, cancel: () => void }\<close>. The cancel
  function is a closure the transport hands out; the model names each closure by a
  number and records its invocations.
\<close>

record Cancelable =
  requestId :: string
  cancel :: nat

text \<open>
  \<^verbatim>\<open>RequestOptions\<close>. An optional field is \<open>None\<close> when absent; \<^verbatim>\<open>data\<close> is
  \<^verbatim>\<open>any\<close>, absent is \<open>JUndefined\<close>. The field \<^verbatim>\<open>method\<close> is \<open>httpMethod\<close>
  here.
\<close>

record RequestOptions =
  url :: string
  httpMethod :: "string option"
  cancelId :: "string option"
  headers :: "(string \<times> string) list option"
  data :: jsvalue
  responseType :: "string option"
  quietError :: "bool option"
  skipLog :: "bool option"
  cache :: "bool option"
  cacheFor :: "int option"

record AxiosRequestConfig =
  ax_url :: string
  ax_method :: string
  ax_headers :: "(string \<times> string) list"
  ax_data :: jsvalue
  ax_responseType :: string
  ax_cancelToken :: "nat option"

text \<open>The transport's response, and the failure object its promise rejects with.\<close>

record AxiosResponse =
  status :: nat
  statusText :: string
  resp_data :: jsvalue
  resp_headers :: "(string \<times> string) list"

record XMLHttpRequest =
  responseURL :: string

record AxiosError =
  response :: "AxiosResponse option"
  request :: "XMLHttpRequest option"
  constructor_name :: string

datatype transport_outcome = Fulfilled AxiosResponse | Failed AxiosError

datatype log_type = REQUEST | RESPONSE

datatype log_status = StatusCode nat | StatusLabel string

record LogEntry =
  log_url :: string
  log_method :: string
  log_kind :: log_type
  requestStatus :: "log_status option"
  description :: "string option"
  requestError :: "AxiosError option"

text \<open>
  One call of \<^verbatim>\<open>notificationStore.alert(message, 'error', { action })\<close>: the message,
  the level, the action's label and what the action's callback returns
  (\<^verbatim>\<open>{ request, error: { status, message } }\<close>).
\<close>

record AlertDetails =
  details_request :: AxiosRequestConfig
  details_status :: "jsvalue option"
  details_message :: jsvalue

record Alert =
  alert_message :: jsvalue
  alert_level :: string
  action_label :: string
  action_result :: AlertDetails

record CacheEntry =
  entry_data :: jsvalue
  storedAt :: int

text \<open>What a promise has done: resolved, rejected, or neither.\<close>

datatype settlement = Resolved jsvalue | Rejected jsvalue | Unsettled

record world =
  cancelables :: "Cancelable list"
  cancelCalls :: "nat list"
  nextHandle :: nat
  cacheStore :: "(string \<times> CacheEntry) list"
  logEntries :: "(int \<times> LogEntry) list"
  alerts :: "Alert list"
  dispatched :: "AxiosRequestConfig list"
  navigations :: "string list"

text \<open>What the browser answers while one handler runs: the location and the clock.\<close>

record browser =
  pathname :: string
  search :: string
  now :: int

definition initial_world :: world where
  "initial_world =
     \<lparr>cancelables = [], cancelCalls = [], nextHandle = 0, cacheStore = [],
      logEntries = [], alerts = [], dispatched = [], navigations = []\<rparr>"

subsection \<open>Collaborators that are not among the sources\<close>

text \<open>
  Modelled from the spec: \<^verbatim>\<open>cacher.load\<close> of \<^verbatim>\<open>./Cacher\<close> is missing from the
  sources. The spec: "returns the stored payload for key if present and not stale
  (maxAge omitted = never stale); returns null on miss or stale", where a read is
  fresh when \<^verbatim>\<open>now - storedAt <= maxAge\<close>.
\<close>

definition cacher_load :: "string \<Rightarrow> int option \<Rightarrow> int \<Rightarrow> (string \<times> CacheEntry) list \<Rightarrow> jsvalue" where
  "cacher_load key maxAge t store =
     (case map_of store key of
        None \<Rightarrow> JNull
      | Some e \<Rightarrow>
          (case maxAge of
             None \<Rightarrow> entry_data e
           | Some age \<Rightarrow> if t - storedAt e \<le> age then entry_data e else JNull))"

text \<open>
  Modelled from the spec: \<^verbatim>\<open>cacher.save\<close> of \<^verbatim>\<open>./Cacher\<close> is missing from the
  sources. The spec: "unconditionally overwrites any existing entry for key with the
  current timestamp".
\<close>

definition cacher_save :: "string \<Rightarrow> jsvalue \<Rightarrow> int \<Rightarrow> (string \<times> CacheEntry) list \<Rightarrow> (string \<times> CacheEntry) list" where
  "cacher_save key d t store =
     (key, \<lparr>entry_data = d, storedAt = t\<rparr>) # filter (\<lambda>kv. fst kv \<noteq> key) store"

text \<open>
  Modelled from the spec: \<^verbatim>\<open>logger.log\<close> of \<^verbatim>\<open>./ApiLogger\<close> is missing from the
  sources. The spec: "appends entry with a timestamp".
\<close>

definition logger_log :: "LogEntry \<Rightarrow> browser \<Rightarrow> world \<Rightarrow> world" where
  "logger_log entry b w = w\<lparr>logEntries := logEntries w @ [(now b, entry)]\<rparr>"

text \<open>
  Modelled from the spec: \<^verbatim>\<open>notificationStore.alert\<close> of
  \<^verbatim>\<open>../stores/NotificationStore\<close> is missing from the sources. The spec: "emits an
  alert-level notification with a human-readable message and an optional View details
  action".
\<close>

definition notify_alert :: "Alert \<Rightarrow> world \<Rightarrow> world" where
  "notify_alert a w = w\<lparr>alerts := alerts w @ [a]\<rparr>"

subsection \<open>The cancelable buffer\<close>

text \<open>
  \<^verbatim>\<open>cancelables.unshift(cancelable); if (cancelables.length > 100) cancelables.pop()\<close>
\<close>

definition addCancelable :: "Cancelable \<Rightarrow> world \<Rightarrow> world" where
  "addCancelable cancelable w =
     (let unshifted = cancelable # cancelables w
      in w\<lparr>cancelables := (if length unshifted > 100 then butlast unshifted else unshifted)\<rparr>)"

text \<open>
  \<^verbatim>\<open>cancelRequests\<close>: call \<^verbatim>\<open>cancel()\<close> on the entries whose \<^verbatim>\<open>requestId\<close> is the
  given one, in the buffer's order, then keep the others.
\<close>

definition cancelRequests :: "string \<Rightarrow> world \<Rightarrow> world" where
  "cancelRequests cancelRequestId w =
     (let filteredCancelables = filter (\<lambda>r. requestId r = cancelRequestId) (cancelables w)
      in w\<lparr>cancelCalls := cancelCalls w @ map cancel filteredCancelables,
            cancelables := filter (\<lambda>r. requestId r \<noteq> cancelRequestId) (cancelables w)\<rparr>)"

subsection \<open>Login redirect\<close>

definition isOnLoginPage :: "browser \<Rightarrow> bool" where
  "isOnLoginPage b = (indexOf (pathname b) ''login'' > - 1)"

definition redirect :: "nat \<Rightarrow> browser \<Rightarrow> world \<Rightarrow> world" where
  "redirect statusCode b w =
     (if statusCode \<noteq> 401 \<or> isOnLoginPage b then w
      else
        (let currentPath =
               (if pathname b \<noteq> ''/'' then ''?prev='' @ pathname b @ search b
                else ''?prev=/'')
         in w\<lparr>navigations := navigations w @ [''/login'' @ currentPath]\<rparr>))"

subsection \<open>truncateUrl\<close>

text \<open>
  \<^verbatim>\<open>url.replace(/http(s)?:\/\/.*?\//, '/')\<close> replaces the leftmost match of the
  pattern: \<^verbatim>\<open>http\<close>, an optional \<^verbatim>\<open>s\<close>, \<^verbatim>\<open>://\<close>, then the shortest run of
  characters other than line terminators that is followed by a slash, and that slash.
  Of the line terminators, line feed and carriage return are code units of a
  \<open>string\<close> here.
\<close>

definition line_terminator :: "char \<Rightarrow> bool" where
  "line_terminator c = (c = CHR 0x0A \<or> c = CHR 0x0D)"

text \<open>
  The strings the pattern matches, read off the pattern itself: a scheme, any
  characters but line terminators, a slash.
\<close>

definition matches_pattern :: "string \<Rightarrow> bool" where
  "matches_pattern m \<longleftrightarrow>
     (\<exists>x. (m = ''http://'' @ x @ ''/'' \<or> m = ''https://'' @ x @ ''/'')
          \<and> (\<forall>c\<in>set x. \<not> line_terminator c))"

text \<open>
  The search as the engine runs it. At one position: the scheme, then the lazy run up
  to the first slash (\<open>lazy_to_slash\<close> answers with what follows the match). Over the
  string: the first position where that succeeds.
\<close>

fun lazy_to_slash :: "string \<Rightarrow> string option" where
  "lazy_to_slash [] = None"
| "lazy_to_slash (c # cs) =
     (if c = CHR ''/'' then Some cs
      else if line_terminator c then None
      else lazy_to_slash cs)"

definition match_here :: "string \<Rightarrow> string option" where
  "match_here s =
     (if prefix ''https://'' s then lazy_to_slash (drop 8 s)
      else if prefix ''http://'' s then lazy_to_slash (drop 7 s)
      else None)"

fun replace_origin :: "string \<Rightarrow> string" where
  "replace_origin [] = []"
| "replace_origin (c # cs) =
     (case match_here (c # cs) of
        Some rest \<Rightarrow> ''/'' @ rest
      | None \<Rightarrow> c # replace_origin cs)"

definition MAX_LENGTH :: nat where
  "MAX_LENGTH = 100"

definition truncateUrl :: "string \<Rightarrow> string" where
  "truncateUrl u =
     (let relativePath = replace_origin u;
          doubled = relativePath @ relativePath
      in if length doubled > MAX_LENGTH then take MAX_LENGTH doubled @ ''...'' else doubled)"

subsection \<open>send\<close>

text \<open>\<^verbatim>\<open>x || d\<close> for an optional string, and the truthiness of an optional flag.\<close>

definition or_default :: "string option \<Rightarrow> string \<Rightarrow> string" where
  "or_default v d = (case v of None \<Rightarrow> d | Some s \<Rightarrow> if s = [] then d else s)"

definition flag :: "bool option \<Rightarrow> bool" where
  "flag v = (v = Some True)"

definition buildAxiosOptions :: "RequestOptions \<Rightarrow> AxiosRequestConfig" where
  "buildAxiosOptions options =
     \<lparr>ax_url = url options,
      ax_method = or_default (httpMethod options) ''GET'',
      ax_headers = (case headers options of None \<Rightarrow> [] | Some h \<Rightarrow> h),
      ax_data = js_or (data options) JNull,
      ax_responseType = or_default (responseType options) ''json'',
      ax_cancelToken = None\<rparr>"

text \<open>
  The values promises settle with. A response object shows its \<^verbatim>\<open>data\<close>,
  \<^verbatim>\<open>status\<close>, \<^verbatim>\<open>statusText\<close> and \<^verbatim>\<open>headers\<close>; its \<^verbatim>\<open>config\<close> and
  \<^verbatim>\<open>request\<close> back-references are left out.
\<close>

definition response_object :: "AxiosResponse \<Rightarrow> jsvalue" where
  "response_object r =
     JObj [(''data'', resp_data r),
           (''status'', JNum (int (status r))),
           (''statusText'', JStr (statusText r)),
           (''headers'', JObj (map (\<lambda>kv. (fst kv, JStr (snd kv))) (resp_headers r)))]"

definition logEntry :: "AxiosRequestConfig \<Rightarrow> log_type \<Rightarrow> LogEntry" where
  "logEntry axiosOptions kind =
     \<lparr>log_url = ax_url axiosOptions,
      log_method = or_default (Some (ax_method axiosOptions)) ''GET'',
      log_kind = kind,
      requestStatus = None,
      description = None,
      requestError = None\<rparr>"

text \<open>The cache read at the head of \<^verbatim>\<open>send\<close>.\<close>

definition cachedData :: "RequestOptions \<Rightarrow> browser \<Rightarrow> world \<Rightarrow> jsvalue" where
  "cachedData options b w =
     (if flag (cache options)
      then cacher_load (url options) (cacheFor options) (now b) (cacheStore w)
      else JNull)"

text \<open>
  The promise's executor up to the call of \<^verbatim>\<open>axios(axiosOptions)\<close>: build the
  options, register the cancelable, log the request, hand the call to the transport.
  \<^verbatim>\<open>new CancelToken(c => { cancel = c })\<close> runs its argument at once, so the handle
  registered is the transport's; each call of the constructor makes a new one.
\<close>

definition send_dispatch :: "RequestOptions \<Rightarrow> browser \<Rightarrow> world \<Rightarrow> AxiosRequestConfig \<times> world" where
  "send_dispatch options b w =
     (let axiosOptions0 = buildAxiosOptions options;
          registered =
            (case cancelId options of
               None \<Rightarrow> (axiosOptions0, w)
             | Some cid \<Rightarrow>
                 if cid = [] then (axiosOptions0, w)
                 else
                   (let c = nextHandle w
                    in (axiosOptions0\<lparr>ax_cancelToken := Some c\<rparr>,
                        addCancelable \<lparr>requestId = cid, cancel = c\<rparr>
                          (w\<lparr>nextHandle := Suc c\<rparr>))));
          axiosOptions = fst registered;
          w1 = snd registered;
          w2 = (if \<not> flag (skipLog options)
                then logger_log (logEntry axiosOptions REQUEST) b w1 else w1)
      in (axiosOptions, w2\<lparr>dispatched := dispatched w2 @ [axiosOptions]\<rparr>))"

text \<open>The \<^verbatim>\<open>.then\<close> handler (the \<^verbatim>\<open>console.log\<close> line is not modelled).\<close>

definition send_then :: "RequestOptions \<Rightarrow> AxiosRequestConfig \<Rightarrow> browser \<Rightarrow> AxiosResponse \<Rightarrow> world \<Rightarrow> world \<times> settlement" where
  "send_then options axiosOptions b r w =
     (let w1 = (if \<not> flag (skipLog options)
                then logger_log
                       ((logEntry axiosOptions RESPONSE)\<lparr>requestStatus := Some (StatusCode 200)\<rparr>) b w
                else w);
          w2 = (if flag (cache options)
                then w1\<lparr>cacheStore := cacher_save (url options) (resp_data r) (now b) (cacheStore w1)\<rparr>
                else w1)
      in (w2, Resolved (response_object r)))"

text \<open>The alerts of the \<^verbatim>\<open>.catch\<close> handler.\<close>

definition serverErrorAlert :: "RequestOptions \<Rightarrow> AxiosRequestConfig \<Rightarrow> AxiosResponse \<Rightarrow> Alert" where
  "serverErrorAlert options axiosOptions r =
     (let d = resp_data r;
          message =
            js_or (js_and (js_and d (get_prop d ''error''))
                          (get_prop (get_prop d ''error'') ''message''))
                  (js_and d (get_prop d ''description''));
          alertMessage =
            js_or message
              (JStr ((if statusText r \<noteq> [] then statusText r else string_of_nat (status r))
                     @ '' '' @ truncateUrl (url options)));
          shownStatus =
            (if status r \<noteq> 0 \<and> statusText r \<noteq> []
             then JStr (string_of_nat (status r) @ '' - '' @ statusText r)
             else if statusText r \<noteq> [] then JStr (statusText r)
             else JNum (int (status r)))
      in \<lparr>alert_message = alertMessage,
          alert_level = ''error'',
          action_label = ''View details'',
          action_result =
            \<lparr>details_request = axiosOptions,
             details_status = Some shownStatus,
             details_message = message\<rparr>\<rparr>)"

definition connectionAlert :: "RequestOptions \<Rightarrow> AxiosRequestConfig \<Rightarrow> string \<Rightarrow> Alert" where
  "connectionAlert options axiosOptions detail =
     \<lparr>alert_message =
        JStr (''Request failed, there might be a problem with the connection to the server. ''
              @ truncateUrl (url options)),
      alert_level = ''error'',
      action_label = ''View details'',
      action_result =
        \<lparr>details_request = axiosOptions,
         details_status = None,
         details_message = JStr detail\<rparr>\<rparr>"

text \<open>
  The \<^verbatim>\<open>.catch\<close> handler. Its three tests, in the source's order:
  \<^verbatim>\<open>error.response\<close>, \<^verbatim>\<open>error.request\<close>, and
  \<^verbatim>\<open>error.constructor.name === 'Cancel'\<close>. In the first branch the handler reads
  \<^verbatim>\<open>error.request.responseURL\<close>; on a failure that carries a response and no request
  that read throws after the alert, and the promise is never settled.
\<close>

definition send_catch :: "RequestOptions \<Rightarrow> AxiosRequestConfig \<Rightarrow> browser \<Rightarrow> AxiosError \<Rightarrow> world \<Rightarrow> world \<times> settlement" where
  "send_catch options axiosOptions b err w =
     (case response err of
        Some r \<Rightarrow>
          (let w1 = (if (status r \<noteq> 401 \<or> \<not> isOnLoginPage b) \<and> \<not> flag (quietError options)
                     then notify_alert (serverErrorAlert options axiosOptions r) w else w)
           in case request err of
                None \<Rightarrow> (w1, Unsettled)
              | Some q \<Rightarrow>
                  (let w2 = (if indexOf (responseURL q) ''/proxy/'' = - 1
                                \<and> indexOf (responseURL q) ''/azure-login'' = - 1
                             then redirect (status r) b w1 else w1);
                       w3 = logger_log
                              ((logEntry axiosOptions RESPONSE)
                                 \<lparr>requestStatus := Some (StatusCode (status r)),
                                  requestError := Some err\<rparr>) b w2
                   in (w3, Rejected (response_object r))))
      | None \<Rightarrow>
          (case request err of
             Some q \<Rightarrow>
               (let w1 = (if \<not> isOnLoginPage b \<and> \<not> flag (quietError options)
                          then notify_alert
                                 (connectionAlert options axiosOptions
                                    ''Request was made but no response was received'') w
                          else w);
                    w2 = logger_log
                           ((logEntry axiosOptions RESPONSE)
                              \<lparr>description := Some ''No response'',
                               requestStatus := Some (StatusCode 500),
                               requestError := Some err\<rparr>) b w1
                in (w2, Rejected (JObj [])))
           | None \<Rightarrow>
               (let canceled = (constructor_name err = ''Cancel'')
                in if canceled
                   then (logger_log
                           ((logEntry axiosOptions RESPONSE)
                              \<lparr>requestStatus := Some (StatusLabel ''canceled'')\<rparr>) b w,
                         Rejected (JObj [(''canceled'', JBool canceled)]))
                   else (notify_alert
                           (connectionAlert options axiosOptions
                              ''Something happened in setting up the request'')
                           (logger_log
                              ((logEntry axiosOptions RESPONSE)
                                 \<lparr>description := Some ''Something happened in setting up the request'',
                                  requestStatus := Some (StatusCode 500)\<rparr>) b w),
                         Rejected (JObj [(''canceled'', JBool canceled)])))))"

definition send_settle :: "RequestOptions \<Rightarrow> AxiosRequestConfig \<Rightarrow> browser \<Rightarrow> transport_outcome \<Rightarrow> world \<Rightarrow> world \<times> settlement" where
  "send_settle options axiosOptions b outcome w =
     (case outcome of
        Fulfilled r \<Rightarrow> send_then options axiosOptions b r w
      | Failed err \<Rightarrow> send_catch options axiosOptions b err w)"

text \<open>
  \<^verbatim>\<open>send\<close>, given how the transport ends the call: the world afterwards and what the
  returned promise did. Here the call is taken in one piece, with nothing running
  between its dispatch and its settlement and the browser asked at one moment;
  \<open>send_dispatch\<close> and \<open>send_settle\<close> are the two halves.
\<close>

definition send :: "RequestOptions \<Rightarrow> browser \<Rightarrow> transport_outcome \<Rightarrow> world \<Rightarrow> world \<times> settlement" where
  "send options b outcome w =
     (let cached = cachedData options b w
      in if truthy cached then (w, Resolved (JObj [(''data'', cached)]))
         else
           (let started = send_dispatch options b w
            in send_settle options (fst started) b outcome (snd started)))"

text \<open>The four failure buckets, as the handler's tests tell them apart.\<close>

datatype bucket = ServerError | NoResponse | Cancelled | SetupFailure

definition classify :: "AxiosError \<Rightarrow> bucket" where
  "classify err =
     (case response err of
        Some r \<Rightarrow> ServerError
      | None \<Rightarrow>
          (case request err of
             Some q \<Rightarrow> NoResponse
           | None \<Rightarrow> if constructor_name err = ''Cancel'' then Cancelled else SetupFailure))"

text \<open>
  What the module does over time is a sequence of steps, in any order the event loop
  produces: the synchronous part of a \<^verbatim>\<open>send\<close> (the cache read and, on a miss, the
  dispatch), a handler of a dispatched call running when the transport settles it,
  and a \<^verbatim>\<open>cancelRequests\<close>.
\<close>

datatype step =
    Sent RequestOptions browser
  | Settled RequestOptions AxiosRequestConfig browser transport_outcome
  | CancelRequested string

fun perform :: "step \<Rightarrow> world \<Rightarrow> world" where
  "perform (Sent options b) w =
     (if truthy (cachedData options b w) then w else snd (send_dispatch options b w))"
| "perform (Settled options axiosOptions b outcome) w =
     fst (send_settle options axiosOptions b outcome w)"
| "perform (CancelRequested tag) w = cancelRequests tag w"

definition run :: "step list \<Rightarrow> world \<Rightarrow> world" where
  "run steps w = fold perform steps w"

text \<open>\<^verbatim>\<open>get(url)\<close> is \<^verbatim>\<open>this.send({ url })\<close>.\<close>

definition url_only :: "string \<Rightarrow> RequestOptions" where
  "url_only u =
     \<lparr>url = u, httpMethod = None, cancelId = None, headers = None, data = JUndefined,
      responseType = None, quietError = None, skipLog = None, cache = None,
      cacheFor = None\<rparr>"

definition get :: "string \<Rightarrow> browser \<Rightarrow> transport_outcome \<Rightarrow> world \<Rightarrow> world \<times> settlement" where
  "get u = send (url_only u)"

section \<open>Properties\<close>

subsection \<open>What each step leaves alone\<close>

lemma cancelables_logger_log: "cancelables (logger_log entry b w) = cancelables w"
  by (simp add: logger_log_def)

lemma cancelables_notify_alert: "cancelables (notify_alert a w) = cancelables w"
  by (simp add: notify_alert_def)

lemma cancelables_redirect: "cancelables (redirect s b w) = cancelables w"
  by (simp add: redirect_def Let_def)

lemma cancelables_send_then: "cancelables (fst (send_then options ax b r w)) = cancelables w"
  by (simp add: send_then_def Let_def cancelables_logger_log)

lemma cancelables_send_catch: "cancelables (fst (send_catch options ax b err w)) = cancelables w"
  by (simp add: send_catch_def Let_def cancelables_logger_log cancelables_notify_alert
      cancelables_redirect split: option.splits)

lemma cancelables_send_settle: "cancelables (fst (send_settle options ax b outcome w)) = cancelables w"
  by (simp add: send_settle_def cancelables_send_then cancelables_send_catch split: transport_outcome.splits)

lemma addCancelable_cancelables:
  "cancelables (addCancelable c w) =
     (if length (cancelables w) < 100 then c # cancelables w else c # butlast (cancelables w))"
  by (cases "cancelables w") (simp_all add: addCancelable_def Let_def)

lemma length_addCancelable:
  "length (cancelables w) \<le> 100 \<Longrightarrow> length (cancelables (addCancelable c w)) \<le> 100"
  by (simp add: addCancelable_cancelables)

lemma length_send_dispatch:
  "length (cancelables w) \<le> 100 \<Longrightarrow> length (cancelables (snd (send_dispatch options b w))) \<le> 100"
  by (simp add: send_dispatch_def Let_def cancelables_logger_log addCancelable_cancelables split: option.splits)

lemma length_send:
  "length (cancelables w) \<le> 100 \<Longrightarrow> length (cancelables (fst (send options b outcome w))) \<le> 100"
  by (simp add: send_def Let_def cancelables_send_settle length_send_dispatch)

lemma length_cancelRequests:
  "length (cancelables w) \<le> 100 \<Longrightarrow> length (cancelables (cancelRequests tag w)) \<le> 100"
  by (simp add: cancelRequests_def Let_def le_trans [OF length_filter_le])

lemma length_perform:
  "length (cancelables w) \<le> 100 \<Longrightarrow> length (cancelables (perform c w)) \<le> 100"
  by (cases c) (simp_all add: length_send_dispatch cancelables_send_settle length_cancelRequests)

lemma length_run:
  "length (cancelables w) \<le> 100 \<Longrightarrow> length (cancelables (run cs w)) \<le> 100"
  unfolding run_def by (induction cs arbitrary: w) (simp_all add: length_perform)

lemma take_append_take: "take n (xs @ take n ys) = take n (xs @ ys)"
  by (simp add: min_def)

lemma fold_addCancelable:
  "length (cancelables w) \<le> 100 \<Longrightarrow>
   cancelables (fold addCancelable cs w) = take 100 (rev cs @ cancelables w)"
proof (induction cs arbitrary: w)
  case Nil
  then show ?case by simp
next
  case (Cons c cs)
  have step: "cancelables (addCancelable c w) = take 100 (c # cancelables w)"
    using Cons.prems by (simp add: addCancelable_cancelables butlast_conv_take)
  have "length (cancelables (addCancelable c w)) \<le> 100"
    using Cons.prems by (rule length_addCancelable)
  then have "cancelables (fold addCancelable cs (addCancelable c w))
      = take 100 (rev cs @ take 100 (c # cancelables w))"
    using Cons.IH step by simp
  also have "\<dots> = take 100 (rev cs @ c # cancelables w)"
    by (rule take_append_take)
  finally show ?case by simp
qed

subsection \<open>The buffer's bound\<close>

text \<open>
  C2. The cancelable buffer never holds more than 100 entries, whatever calls of
  \<^verbatim>\<open>send\<close> and \<^verbatim>\<open>cancelRequests\<close> the module has served and in whatever order
  their handlers ran. A registration puts the
  new cancelable at the head (the newest end); when that makes 101 entries the last
  one (the oldest) is dropped. Registering any sequence from the empty buffer leaves
  its 100 latest entries, newest first: for 101 registrations, all but the first.
\<close>

theorem cancelable_buffer_bounded:
  "length (cancelables (run steps initial_world)) \<le> 100
   \<and> length (cancelables (fst (send options b outcome initial_world))) \<le> 100
   \<and> cancelables (addCancelable c w) =
       (if length (cancelables w) < 100 then c # cancelables w
        else c # butlast (cancelables w))
   \<and> cancelables (fold addCancelable cs initial_world) = take 100 (rev cs)
   \<and> (length cs = 101 \<longrightarrow>
        cancelables (fold addCancelable cs initial_world) = rev (tl cs))"
proof -
  have init: "length (cancelables initial_world) \<le> 100"
    by (simp add: initial_world_def)
  have a: "length (cancelables (run steps initial_world)) \<le> 100"
    using init by (rule length_run)
  have s: "length (cancelables (fst (send options b outcome initial_world))) \<le> 100"
    using init by (rule length_send)
  have f: "cancelables (fold addCancelable cs initial_world) = take 100 (rev cs)"
    using fold_addCancelable [OF init, of cs] by (simp add: initial_world_def)
  have "take 100 (rev cs) = rev (tl cs)" if "length cs = 101"
    using that by (simp add: take_rev drop_Suc)
  with a s f addCancelable_cancelables show ?thesis by simp
qed

theorem cancelable_buffer_bounded_witness:
  "length (map (\<lambda>i. \<lparr>requestId = ''poll'', cancel = i\<rparr>) [0..<101]) = 101
   \<and> cancelables (fold addCancelable (map (\<lambda>i. \<lparr>requestId = ''poll'', cancel = i\<rparr>) [0..<101]) initial_world)
       = rev (map (\<lambda>i. \<lparr>requestId = ''poll'', cancel = i\<rparr>) [1..<101])"
proof -
  let ?cs = "map (\<lambda>i. \<lparr>requestId = ''poll'', cancel = i\<rparr>) [0..<101]"
  have len: "length ?cs = 101" by simp
  have tl: "tl ?cs = map (\<lambda>i. \<lparr>requestId = ''poll'', cancel = i\<rparr>) [1..<101]"
    by (simp add: map_tl [symmetric] upt_conv_Cons [of 0])
  have "length ?cs = 101 \<longrightarrow>
      cancelables (fold addCancelable ?cs initial_world) = rev (tl ?cs)"
    using cancelable_buffer_bounded [where cs = ?cs] by blast
  with len have "cancelables (fold addCancelable ?cs initial_world) = rev (tl ?cs)"
    by blast
  with len show ?thesis unfolding tl by blast
qed

subsection \<open>Cancelling a group\<close>

lemma count_list_map_filter:
  "distinct (map f xs) \<Longrightarrow> x \<in> set xs \<Longrightarrow>
   count_list (map f (filter P xs)) (f x) = (if P x then 1 else 0)"
proof (induction xs)
  case Nil
  then show ?case by simp
next
  case (Cons y ys)
  show ?case
  proof (cases "x = y")
    case True
    have "f y \<notin> set (map f (filter P ys))"
      using Cons.prems(1) by auto
    then have "count_list (map f (filter P ys)) (f y) = 0"
      by simp
    with True show ?thesis by simp
  next
    case False
    with Cons.prems have "x \<in> set ys" and "f y \<noteq> f x" and "distinct (map f ys)"
      by auto
    with Cons.IH show ?thesis by simp
  qed
qed

lemma cancelCalls_cancelRequests:
  "cancelCalls (cancelRequests tag w) =
     cancelCalls w @ map cancel (filter (\<lambda>r. requestId r = tag) (cancelables w))"
  by (simp add: cancelRequests_def Let_def)

lemma cancelables_cancelRequests:
  "cancelables (cancelRequests tag w) = filter (\<lambda>r. requestId r \<noteq> tag) (cancelables w)"
  by (simp add: cancelRequests_def Let_def)

lemma cancelRequests_twice: "cancelRequests tag (cancelRequests tag w) = cancelRequests tag w"
proof -
  have "filter (\<lambda>r. requestId r = tag) (filter (\<lambda>r. requestId r \<noteq> tag) (cancelables w)) = []"
    by (simp add: filter_empty_conv)
  then show ?thesis
    by (simp add: cancelRequests_def Let_def)
qed

text \<open>
  C3. \<^verbatim>\<open>cancelRequests(tag)\<close> invokes the cancel handle of every entry registered
  under \<open>tag\<close>, one invocation per entry and in the buffer's order, and then removes
  exactly those entries: the entries of any other tag stay, in their order. Where
  the buffer's handles are pairwise different, each handle of the buffer is invoked
  once when its entry carries the tag and not at all otherwise. A second call with
  the same tag right after the first changes nothing: no handle is invoked, no entry
  removed.
\<close>

theorem cancelRequests_cancels_group:
  "cancelCalls (cancelRequests tag w) =
     cancelCalls w @ map cancel (filter (\<lambda>r. requestId r = tag) (cancelables w))
   \<and> cancelables (cancelRequests tag w) = filter (\<lambda>r. requestId r \<noteq> tag) (cancelables w)
   \<and> (other \<noteq> tag \<longrightarrow>
        filter (\<lambda>r. requestId r = other) (cancelables (cancelRequests tag w)) =
        filter (\<lambda>r. requestId r = other) (cancelables w))
   \<and> (distinct (map cancel (cancelables w)) \<and> r \<in> set (cancelables w) \<longrightarrow>
        count_list (drop (length (cancelCalls w)) (cancelCalls (cancelRequests tag w))) (cancel r) =
        (if requestId r = tag then 1 else 0))
   \<and> cancelRequests tag (cancelRequests tag w) = cancelRequests tag w"
proof -
  have others: "filter (\<lambda>r. requestId r = other) (cancelables (cancelRequests tag w)) =
      filter (\<lambda>r. requestId r = other) (cancelables w)" if "other \<noteq> tag"
  proof -
    have "filter (\<lambda>r. requestId r \<noteq> tag \<and> requestId r = other) (cancelables w) =
        filter (\<lambda>r. requestId r = other) (cancelables w)"
      by (rule filter_cong) (use that in auto)
    then show ?thesis
      by (simp add: cancelables_cancelRequests)
  qed
  have once: "count_list (drop (length (cancelCalls w)) (cancelCalls (cancelRequests tag w))) (cancel r) =
      (if requestId r = tag then 1 else 0)"
    if "distinct (map cancel (cancelables w))" and "r \<in> set (cancelables w)"
    using count_list_map_filter [OF that, of "\<lambda>r. requestId r = tag"]
    by (simp add: cancelCalls_cancelRequests)
  from others once cancelCalls_cancelRequests cancelables_cancelRequests cancelRequests_twice
  show ?thesis by blast
qed

theorem cancelRequests_cancels_group_witness:
  "cancelCalls (cancelRequests ''grp1''
     (initial_world\<lparr>cancelables :=
        [\<lparr>requestId = ''grp1'', cancel = 2\<rparr>, \<lparr>requestId = ''grp2'', cancel = 1\<rparr>,
         \<lparr>requestId = ''grp1'', cancel = 0\<rparr>]\<rparr>)) = [2, 0]
   \<and> cancelables (cancelRequests ''grp1''
     (initial_world\<lparr>cancelables :=
        [\<lparr>requestId = ''grp1'', cancel = 2\<rparr>, \<lparr>requestId = ''grp2'', cancel = 1\<rparr>,
         \<lparr>requestId = ''grp1'', cancel = 0\<rparr>]\<rparr>)) = [\<lparr>requestId = ''grp2'', cancel = 1\<rparr>]
   \<and> count_list (cancelCalls (cancelRequests ''grp1''
     (initial_world\<lparr>cancelables :=
        [\<lparr>requestId = ''grp1'', cancel = 2\<rparr>, \<lparr>requestId = ''grp2'', cancel = 1\<rparr>,
         \<lparr>requestId = ''grp1'', cancel = 0\<rparr>]\<rparr>))) 2 = 1"
  using cancelRequests_cancels_group
    [of "''grp1''"
        "initial_world\<lparr>cancelables :=
           [\<lparr>requestId = ''grp1'', cancel = 2\<rparr>, \<lparr>requestId = ''grp2'', cancel = 1\<rparr>,
            \<lparr>requestId = ''grp1'', cancel = 0\<rparr>]\<rparr>"
        "''grp2''" "\<lparr>requestId = ''grp1'', cancel = 2\<rparr>"]
  by (simp add: initial_world_def)

subsection \<open>Eviction\<close>

text \<open>
  C10. When a cancelable is registered while the buffer holds 100 entries, the oldest
  entry leaves the buffer and nothing else happens: no cancel handle is invoked and
  nothing that was dispatched is touched. A later \<^verbatim>\<open>cancelRequests\<close> invokes the
  handles of the entries still in the buffer only; where the handles are pairwise
  different, the evicted entry's handle is not among them, even for the evicted
  entry's own tag.
\<close>

theorem eviction_does_not_cancel:
  assumes "length (cancelables w) = 100"
  shows "addCancelable c w = w\<lparr>cancelables := c # butlast (cancelables w)\<rparr>
    \<and> cancelCalls (addCancelable c w) = cancelCalls w
    \<and> dispatched (addCancelable c w) = dispatched w
    \<and> cancelCalls (cancelRequests tag (addCancelable c w)) =
        cancelCalls w @ map cancel (filter (\<lambda>r. requestId r = tag) (c # butlast (cancelables w)))
    \<and> (distinct (map cancel (c # cancelables w)) \<longrightarrow>
         cancel (last (cancelables w)) \<notin>
           set (drop (length (cancelCalls w))
                  (cancelCalls (cancelRequests (requestId (last (cancelables w))) (addCancelable c w)))))"
proof -
  from assms have ne: "cancelables w \<noteq> []" by auto
  have add: "addCancelable c w = w\<lparr>cancelables := c # butlast (cancelables w)\<rparr>"
    using assms ne by (simp add: addCancelable_def Let_def)
  have calls: "cancelCalls (cancelRequests t (addCancelable c w)) =
      cancelCalls w @ map cancel (filter (\<lambda>r. requestId r = t) (c # butlast (cancelables w)))" for t
    by (simp add: add cancelCalls_cancelRequests)
  have gone: "cancel (last (cancelables w)) \<notin>
      set (drop (length (cancelCalls w))
             (cancelCalls (cancelRequests (requestId (last (cancelables w))) (addCancelable c w))))"
    if d: "distinct (map cancel (c # cancelables w))"
  proof -
    have "cancelables w = butlast (cancelables w) @ [last (cancelables w)]"
      using ne by simp
    then have "map cancel (c # cancelables w) =
        map cancel (c # butlast (cancelables w)) @ [cancel (last (cancelables w))]"
      by (metis append_Cons list.simps(8,9) map_append)
    with d have "cancel (last (cancelables w)) \<notin> set (map cancel (c # butlast (cancelables w)))"
      by (metis distinct_append disjoint_iff list.set_intros(1))
    then have "cancel (last (cancelables w)) \<notin>
        set (map cancel (filter (\<lambda>r. requestId r = requestId (last (cancelables w)))
               (c # butlast (cancelables w))))"
      by auto
    then show ?thesis
      by (simp add: calls)
  qed
  from add calls gone show ?thesis by simp
qed

theorem eviction_does_not_cancel_witness:
  "length (cancelables (initial_world\<lparr>cancelables := map (\<lambda>i. \<lparr>requestId = ''poll'', cancel = i\<rparr>) (rev [0..<100])\<rparr>)) = 100
   \<and> distinct (map cancel (\<lparr>requestId = ''poll'', cancel = 100\<rparr> #
        cancelables (initial_world\<lparr>cancelables := map (\<lambda>i. \<lparr>requestId = ''poll'', cancel = i\<rparr>) (rev [0..<100])\<rparr>)))
   \<and> cancelCalls (addCancelable \<lparr>requestId = ''poll'', cancel = 100\<rparr>
        (initial_world\<lparr>cancelables := map (\<lambda>i. \<lparr>requestId = ''poll'', cancel = i\<rparr>) (rev [0..<100])\<rparr>)) = []
   \<and> 0 \<notin> set (cancelCalls (cancelRequests ''poll'' (addCancelable \<lparr>requestId = ''poll'', cancel = 100\<rparr>
        (initial_world\<lparr>cancelables := map (\<lambda>i. \<lparr>requestId = ''poll'', cancel = i\<rparr>) (rev [0..<100])\<rparr>))))"
proof -
  let ?cs = "map (\<lambda>i. \<lparr>requestId = ''poll'', cancel = i\<rparr>) (rev [0..<100])"
  let ?w = "initial_world\<lparr>cancelables := ?cs\<rparr>"
  let ?c = "\<lparr>requestId = ''poll'', cancel = 100\<rparr>"
  have len: "length (cancelables ?w) = 100" by simp
  have "map cancel ?cs = rev [0..<100]"
    by (simp add: comp_def rev_map [symmetric])
  then have dist: "distinct (map cancel (?c # cancelables ?w))" by simp
  have "[0..<100] = 0 # [1..<100]" by (simp add: upt_conv_Cons)
  then have last: "last (cancelables ?w) = \<lparr>requestId = ''poll'', cancel = 0\<rparr>"
    by (simp add: last_map)
  have none: "cancelCalls ?w = []" by (simp add: initial_world_def)
  note ev = eviction_does_not_cancel [OF len, of ?c "''poll''"]
  from ev have quiet: "cancelCalls (addCancelable ?c ?w) = cancelCalls ?w"
    by blast
  from ev dist have gone: "cancel (last (cancelables ?w)) \<notin>
      set (drop (length (cancelCalls ?w))
             (cancelCalls (cancelRequests (requestId (last (cancelables ?w))) (addCancelable ?c ?w))))"
    by blast
  have "cancelCalls (addCancelable ?c ?w) = []"
    using quiet unfolding none .
  moreover have "0 \<notin> set (cancelCalls (cancelRequests ''poll'' (addCancelable ?c ?w)))"
    using gone unfolding last none by simp
  ultimately show ?thesis using len dist by blast
qed

subsection \<open>truncateUrl\<close>

lemma lazy_to_slash_host:
  "CHR ''/'' \<notin> set host \<Longrightarrow> \<forall>c\<in>set host. \<not> line_terminator c \<Longrightarrow>
   lazy_to_slash (host @ CHR ''/'' # rest) = Some rest"
  by (induction host) auto

lemma replace_origin_https:
  "CHR ''/'' \<notin> set host \<Longrightarrow> \<forall>c\<in>set host. \<not> line_terminator c \<Longrightarrow>
   replace_origin (''https://'' @ host @ ''/'' @ rest) = ''/'' @ rest"
  by (simp add: match_here_def lazy_to_slash_host)

lemma replace_origin_http:
  "CHR ''/'' \<notin> set host \<Longrightarrow> \<forall>c\<in>set host. \<not> line_terminator c \<Longrightarrow>
   replace_origin (''http://'' @ host @ ''/'' @ rest) = ''/'' @ rest"
  by (simp add: match_here_def lazy_to_slash_host)

lemma replace_origin_example:
  "replace_origin ''https://host/api/migrations/abc'' = ''/api/migrations/abc''"
  by (simp add: match_here_def line_terminator_def)

lemma truncateUrl_example:
  "truncateUrl ''https://host/api/migrations/abc'' = ''/api/migrations/abc/api/migrations/abc''"
  unfolding truncateUrl_def replace_origin_example by (simp add: MAX_LENGTH_def)

lemma lazy_to_slash_Some:
  "lazy_to_slash s = Some post \<Longrightarrow>
   \<exists>x. s = x @ CHR ''/'' # post \<and> CHR ''/'' \<notin> set x \<and> (\<forall>c\<in>set x. \<not> line_terminator c)"
proof (induction s)
  case Nil
  then show ?case by simp
next
  case (Cons c cs)
  show ?case
  proof (cases "c = CHR ''/''")
    case True
    with Cons.prems have "c # cs = [] @ CHR ''/'' # post" by simp
    then show ?thesis by (metis empty_iff list.set(1))
  next
    case False
    with Cons.prems have nt: "\<not> line_terminator c" and "lazy_to_slash cs = Some post"
      by (auto split: if_splits)
    with Cons.IH obtain x where "cs = x @ CHR ''/'' # post" "CHR ''/'' \<notin> set x"
      "\<forall>c\<in>set x. \<not> line_terminator c" by blast
    with False nt have "c # cs = (c # x) @ CHR ''/'' # post \<and> CHR ''/'' \<notin> set (c # x)
        \<and> (\<forall>c\<in>set (c # x). \<not> line_terminator c)" by auto
    then show ?thesis by blast
  qed
qed

lemma lazy_to_slash_None:
  "lazy_to_slash s = None \<Longrightarrow> s = x @ CHR ''/'' # post \<Longrightarrow> \<exists>c\<in>set x. line_terminator c"
proof (induction s arbitrary: x)
  case Nil
  then show ?case by simp
next
  case (Cons c cs)
  from Cons.prems(1) have ns: "c \<noteq> CHR ''/''" by (auto split: if_splits)
  with Cons.prems(2) obtain x' where x: "x = c # x'" and cs: "cs = x' @ CHR ''/'' # post"
    by (cases x) auto
  show ?case
  proof (cases "line_terminator c")
    case True
    with x show ?thesis by simp
  next
    case False
    with Cons.prems(1) ns have "lazy_to_slash cs = None" by simp
    from Cons.IH [OF this cs] x show ?thesis by simp
  qed
qed

lemma lazy_to_slash_shortest:
  "lazy_to_slash s = Some post \<Longrightarrow> s = x @ CHR ''/'' # post' \<Longrightarrow> length post' \<le> length post"
proof (induction s arbitrary: x)
  case Nil
  then show ?case by simp
next
  case (Cons c cs)
  show ?case
  proof (cases "c = CHR ''/''")
    case True
    with Cons.prems(1) have "post = cs" by simp
    moreover from Cons.prems(2) have "length (c # cs) = length x + 1 + length post'" by simp
    ultimately show ?thesis by simp
  next
    case False
    with Cons.prems(2) obtain x' where "cs = x' @ CHR ''/'' # post'"
      by (cases x) auto
    moreover from False Cons.prems(1) have "lazy_to_slash cs = Some post"
      by (auto split: if_splits)
    ultimately show ?thesis using Cons.IH by blast
  qed
qed

lemma matches_pattern_cases:
  assumes "matches_pattern m"
  obtains x where "m = ''http://'' @ x @ ''/''" and "\<forall>c\<in>set x. \<not> line_terminator c"
  | x where "m = ''https://'' @ x @ ''/''" and "\<forall>c\<in>set x. \<not> line_terminator c"
  using assms unfolding matches_pattern_def by blast

lemma match_here_http: "match_here (''http://'' @ s) = lazy_to_slash s"
  by (simp add: match_here_def)

lemma match_here_https: "match_here (''https://'' @ s) = lazy_to_slash s"
  by (simp add: match_here_def)

lemma prefix_split: "prefix p s \<Longrightarrow> s = p @ drop (length p) s"
  by (auto simp: prefix_def)

lemma matches_pattern_http:
  "\<forall>c\<in>set x. \<not> line_terminator c \<Longrightarrow> matches_pattern (''http://'' @ x @ ''/'')"
  unfolding matches_pattern_def by blast

lemma matches_pattern_https:
  "\<forall>c\<in>set x. \<not> line_terminator c \<Longrightarrow> matches_pattern (''https://'' @ x @ ''/'')"
  unfolding matches_pattern_def by blast

lemma match_here_Some:
  assumes "match_here s = Some post"
  shows "\<exists>m. s = m @ post \<and> matches_pattern m"
proof (cases "prefix ''https://'' s")
  case True
  then have s: "s = ''https://'' @ drop 8 s"
    using prefix_split [of "''https://''" s] by (simp add: eval_nat_numeral)
  from True assms have "lazy_to_slash (drop 8 s) = Some post"
    by (simp add: match_here_def)
  then obtain x where x: "drop 8 s = x @ CHR ''/'' # post" "\<forall>c\<in>set x. \<not> line_terminator c"
    using lazy_to_slash_Some by blast
  from s x(1) have "s = (''https://'' @ x @ ''/'') @ post" by simp
  with matches_pattern_https [OF x(2)] show ?thesis by blast
next
  case False
  with assms have p: "prefix ''http://'' s" and l: "lazy_to_slash (drop 7 s) = Some post"
    by (auto simp: match_here_def split: if_splits)
  then have s: "s = ''http://'' @ drop 7 s"
    using prefix_split [of "''http://''" s] by (simp add: eval_nat_numeral)
  from l obtain x where x: "drop 7 s = x @ CHR ''/'' # post" "\<forall>c\<in>set x. \<not> line_terminator c"
    using lazy_to_slash_Some by blast
  from s x(1) have "s = (''http://'' @ x @ ''/'') @ post" by simp
  with matches_pattern_http [OF x(2)] show ?thesis by blast
qed

lemma match_here_None:
  assumes "match_here s = None" and "s = m @ post" and "matches_pattern m"
  shows False
  using assms(3)
proof (cases rule: matches_pattern_cases)
  case (1 x)
  with assms(2) have "s = ''http://'' @ (x @ CHR ''/'' # post)" by simp
  with assms(1) have "lazy_to_slash (x @ CHR ''/'' # post) = None"
    using match_here_http by metis
  from lazy_to_slash_None [OF this refl] 1(2) show False by blast
next
  case (2 x)
  with assms(2) have "s = ''https://'' @ (x @ CHR ''/'' # post)" by simp
  with assms(1) have "lazy_to_slash (x @ CHR ''/'' # post) = None"
    using match_here_https by metis
  from lazy_to_slash_None [OF this refl] 2(2) show False by blast
qed

lemma match_here_shortest:
  assumes "match_here s = Some post" and "s = m @ post'" and "matches_pattern m"
  shows "length post' \<le> length post"
  using assms(3)
proof (cases rule: matches_pattern_cases)
  case (1 x)
  with assms(2) have "s = ''http://'' @ (x @ CHR ''/'' # post')" by simp
  with assms(1) have "lazy_to_slash (x @ CHR ''/'' # post') = Some post"
    using match_here_http by metis
  from lazy_to_slash_shortest [OF this refl] show ?thesis .
next
  case (2 x)
  with assms(2) have "s = ''https://'' @ (x @ CHR ''/'' # post')" by simp
  with assms(1) have "lazy_to_slash (x @ CHR ''/'' # post') = Some post"
    using match_here_https by metis
  from lazy_to_slash_shortest [OF this refl] show ?thesis .
qed

lemma matches_pattern_nonempty: "matches_pattern m \<Longrightarrow> m \<noteq> []"
  by (auto simp: matches_pattern_def)

lemma replace_origin_no_match:
  "(\<forall>pre m post. u = pre @ m @ post \<longrightarrow> \<not> matches_pattern m) \<Longrightarrow> replace_origin u = u"
proof (induction u)
  case Nil
  then show ?case by simp
next
  case (Cons c cs)
  have none: "match_here (c # cs) = None"
  proof (cases "match_here (c # cs)")
    case None
    then show ?thesis .
  next
    case (Some post)
    then obtain m where "c # cs = [] @ m @ post" "matches_pattern m"
      using match_here_Some by fastforce
    with Cons.prems show ?thesis by blast
  qed
  have "\<forall>pre m post. cs = pre @ m @ post \<longrightarrow> \<not> matches_pattern m"
  proof (intro allI impI)
    fix pre m post
    assume "cs = pre @ m @ post"
    then have "c # cs = (c # pre) @ m @ post" by simp
    with Cons.prems show "\<not> matches_pattern m" by blast
  qed
  with Cons.IH none show ?case by simp
qed

lemma replace_origin_leftmost:
  assumes "matches_pattern m"
    and "\<forall>pre' m' post'. pre @ m @ post = pre' @ m' @ post' \<and> matches_pattern m' \<longrightarrow>
           length pre < length pre' \<or> (length pre = length pre' \<and> length m \<le> length m')"
  shows "replace_origin (pre @ m @ post) = pre @ ''/'' @ post"
  using assms(2)
proof (induction pre)
  case Nil
  from assms(1) obtain c cs where u: "m @ post = c # cs"
    using matches_pattern_nonempty by (cases "m @ post") auto
  obtain post0 where some: "match_here (m @ post) = Some post0"
    using match_here_None [OF _ refl assms(1)] by (cases "match_here (m @ post)") auto
  then obtain m0 where m0: "m @ post = m0 @ post0" "matches_pattern m0"
    using match_here_Some by blast
  with Nil.prems have "length m \<le> length m0" by fastforce
  moreover from match_here_shortest [OF some refl assms(1)] have "length post \<le> length post0" .
  moreover from m0(1) have "length m + length post = length m0 + length post0"
    by (metis length_append)
  ultimately have "length post = length post0" by simp
  with m0(1) have "post = post0" by (metis append_eq_append_conv)
  with some u show ?case by simp
next
  case (Cons c pre)
  have none: "match_here (c # pre @ m @ post) = None"
  proof (cases "match_here (c # pre @ m @ post)")
    case None
    then show ?thesis .
  next
    case (Some post0)
    then obtain m0 where "(c # pre) @ m @ post = [] @ m0 @ post0" "matches_pattern m0"
      using match_here_Some by fastforce
    with Cons.prems show ?thesis by fastforce
  qed
  have "\<forall>pre' m' post'. pre @ m @ post = pre' @ m' @ post' \<and> matches_pattern m' \<longrightarrow>
      length pre < length pre' \<or> (length pre = length pre' \<and> length m \<le> length m')"
  proof (intro allI impI)
    fix pre' m' post'
    assume a: "pre @ m @ post = pre' @ m' @ post' \<and> matches_pattern m'"
    then have "(c # pre) @ m @ post = (c # pre') @ m' @ post' \<and> matches_pattern m'" by simp
    with Cons.prems have "length (c # pre) < length (c # pre')
        \<or> (length (c # pre) = length (c # pre') \<and> length m \<le> length m')" by blast
    then show "length pre < length pre' \<or> (length pre = length pre' \<and> length m \<le> length m')"
      by simp
  qed
  with Cons.IH none show ?case by simp
qed

lemma matches_pattern_h: "matches_pattern m \<Longrightarrow> \<exists>m'. m = CHR ''h'' # m'"
  by (auto simp: matches_pattern_def)

lemma no_h_no_match:
  assumes "CHR ''h'' \<notin> set u"
  shows "\<forall>pre m post. u = pre @ m @ post \<longrightarrow> \<not> matches_pattern m"
proof (intro allI impI notI)
  fix pre m post
  assume "u = pre @ m @ post" and "matches_pattern m"
  then have "CHR ''h'' \<in> set u"
    using matches_pattern_h by fastforce
  with assms show False by simp
qed

lemma leftmost_shortestI:
  assumes "CHR ''h'' \<notin> set pre" and "match_here (m @ post) = Some post"
  shows "\<forall>pre' m' post'. pre @ m @ post = pre' @ m' @ post' \<and> matches_pattern m' \<longrightarrow>
           length pre < length pre' \<or> (length pre = length pre' \<and> length m \<le> length m')"
proof (intro allI impI)
  fix pre' m' post'
  assume a: "pre @ m @ post = pre' @ m' @ post' \<and> matches_pattern m'"
  then obtain m'' where m': "m' = CHR ''h'' # m''"
    using matches_pattern_h by blast
  show "length pre < length pre' \<or> (length pre = length pre' \<and> length m \<le> length m')"
  proof (cases "length pre' < length pre")
    case True
    then have "(pre @ m @ post) ! length pre' = pre ! length pre'"
      by (simp add: nth_append)
    moreover from a m' have "(pre @ m @ post) ! length pre' = CHR ''h''"
      by simp
    ultimately have "CHR ''h'' \<in> set pre"
      using True by (metis nth_mem)
    with assms(1) show ?thesis by simp
  next
    case False
    show ?thesis
    proof (cases "length pre' = length pre")
      case True
      with a have eq: "m @ post = m' @ post'" by simp
      from a have "matches_pattern m'" by simp
      from match_here_shortest [OF assms(2) eq this] have "length post' \<le> length post" .
      moreover from eq have "length m + length post = length m' + length post'"
        by (metis length_append)
      ultimately show ?thesis using True by simp
    next
      case neq: False
      with False show ?thesis by simp
    qed
  qed
qed

text \<open>
  C8, as amended. For every URL the helper first replaces the leftmost match of the
  pattern (\<^verbatim>\<open>http://\<close> or \<^verbatim>\<open>https://\<close>, then the shortest run of characters other
  than line terminators up to and including the next slash) by one slash: of all the
  ways to cut the URL into a part before, a match and a part after, it takes the one
  with the shortest part before and then the shortest match, and a URL that cannot
  be cut so is left as it is. For a URL that begins with a scheme, a host and a
  slash this strips the scheme and host and leaves the path-only portion. The helper
  then doubles that string and returns the doubled string, cut to 100 characters and
  followed by an ellipsis only when the doubled string is longer than 100. For
  \<^verbatim>\<open>https://host/api/migrations/abc\<close> the path has length 19, the doubled string has
  length 38 and is returned as it is.
\<close>

theorem truncateUrl_doubles_then_truncates:
  "((\<forall>pre m post. u = pre @ m @ post \<longrightarrow> \<not> matches_pattern m) \<longrightarrow> replace_origin u = u)
   \<and> (matches_pattern m
        \<and> (\<forall>pre' m' post'. pre @ m @ post = pre' @ m' @ post' \<and> matches_pattern m' \<longrightarrow>
              length pre < length pre' \<or> (length pre = length pre' \<and> length m \<le> length m')) \<longrightarrow>
        replace_origin (pre @ m @ post) = pre @ ''/'' @ post)
   \<and> (CHR ''/'' \<notin> set host \<and> (\<forall>c\<in>set host. \<not> line_terminator c) \<longrightarrow>
      replace_origin (''https://'' @ host @ ''/'' @ rest) = ''/'' @ rest
      \<and> replace_origin (''http://'' @ host @ ''/'' @ rest) = ''/'' @ rest)
   \<and> (length (replace_origin u @ replace_origin u) \<le> 100 \<longrightarrow>
        truncateUrl u = replace_origin u @ replace_origin u)
   \<and> (length (replace_origin u @ replace_origin u) > 100 \<longrightarrow>
        truncateUrl u = take 100 (replace_origin u @ replace_origin u) @ ''...'')
   \<and> replace_origin ''https://host/api/migrations/abc'' = ''/api/migrations/abc''
   \<and> length ''/api/migrations/abc'' = 19
   \<and> truncateUrl ''https://host/api/migrations/abc'' = ''/api/migrations/abc/api/migrations/abc''
   \<and> length (truncateUrl ''https://host/api/migrations/abc'') = 38"
proof -
  have short: "truncateUrl u = replace_origin u @ replace_origin u"
    if "length (replace_origin u @ replace_origin u) \<le> 100"
    using that by (simp add: truncateUrl_def MAX_LENGTH_def Let_def)
  have long: "truncateUrl u = take 100 (replace_origin u @ replace_origin u) @ ''...''"
    if "length (replace_origin u @ replace_origin u) > 100"
    using that by (simp add: truncateUrl_def MAX_LENGTH_def Let_def)
  have len: "length (truncateUrl ''https://host/api/migrations/abc'') = 38"
    by (simp add: truncateUrl_example)
  have l19: "length ''/api/migrations/abc'' = 19" by simp
  have none: "replace_origin u = u"
    if "\<forall>pre m post. u = pre @ m @ post \<longrightarrow> \<not> matches_pattern m"
    using that by (rule replace_origin_no_match)
  have first: "replace_origin (pre @ m @ post) = pre @ ''/'' @ post"
    if "matches_pattern m"
      and "\<forall>pre' m' post'. pre @ m @ post = pre' @ m' @ post' \<and> matches_pattern m' \<longrightarrow>
              length pre < length pre' \<or> (length pre = length pre' \<and> length m \<le> length m')"
    using that by (rule replace_origin_leftmost)
  have host: "replace_origin (''https://'' @ host @ ''/'' @ rest) = ''/'' @ rest
      \<and> replace_origin (''http://'' @ host @ ''/'' @ rest) = ''/'' @ rest"
    if "CHR ''/'' \<notin> set host \<and> (\<forall>c\<in>set host. \<not> line_terminator c)"
    using that replace_origin_https replace_origin_http by blast
  show ?thesis
    apply (intro conjI impI)
    subgoal by (rule none)
    subgoal using first by blast
    subgoal using host by blast
    subgoal using host by blast
    subgoal by (rule short)
    subgoal by (rule long)
    subgoal by (rule replace_origin_example)
    subgoal by (rule l19)
    subgoal by (rule truncateUrl_example)
    subgoal by (rule len)
    done
qed

theorem truncateUrl_doubles_then_truncates_witness:
  "CHR ''h'' \<notin> set ''/api/users''
   \<and> replace_origin ''/api/users'' = ''/api/users''
   \<and> matches_pattern ''http://10.0.0.1/''
   \<and> replace_origin ''/proxy/http://10.0.0.1/v3'' = ''/proxy//v3''
   \<and> CHR ''/'' \<notin> set ''coriolis.local:3000''
   \<and> list_all (\<lambda>c. \<not> line_terminator c) ''coriolis.local:3000''
   \<and> replace_origin (''http://'' @ ''coriolis.local:3000'' @ ''/'' @ ''api/replicas'') = ''/api/replicas''
   \<and> length (replace_origin ''/api/users'' @ replace_origin ''/api/users'') \<le> 100
   \<and> truncateUrl ''/api/users'' = ''/api/users/api/users''
   \<and> length (replace_origin ''https://host/api/replicas/0123456789abcdef0123456789abcdef/executions''
         @ replace_origin ''https://host/api/replicas/0123456789abcdef0123456789abcdef/executions'') > 100
   \<and> truncateUrl ''https://host/api/replicas/0123456789abcdef0123456789abcdef/executions'' =
       ''/api/replicas/0123456789abcdef0123456789abcdef/executions/api/replicas/0123456789abcdef0123456789abc...''"
proof -
  note t = truncateUrl_doubles_then_truncates
  have nh: "CHR ''h'' \<notin> set ''/api/users''" by simp
  from t [where u = "''/api/users''"] no_h_no_match [OF nh]
  have r1: "replace_origin ''/api/users'' = ''/api/users''"
    by blast
  have mp: "matches_pattern ''http://10.0.0.1/''"
    using matches_pattern_http [of "''10.0.0.1''"] by (simp add: line_terminator_def)
  have np: "CHR ''h'' \<notin> set ''/proxy/''" by simp
  have mh: "match_here (''http://10.0.0.1/'' @ ''v3'') = Some ''v3''"
    by (simp add: match_here_def line_terminator_def)
  from t [where pre = "''/proxy/''" and m = "''http://10.0.0.1/''" and post = "''v3''"]
    mp leftmost_shortestI [OF np mh]
  have "replace_origin (''/proxy/'' @ ''http://10.0.0.1/'' @ ''v3'') = ''/proxy/'' @ ''/'' @ ''v3''"
    by blast
  then have r3: "replace_origin ''/proxy/http://10.0.0.1/v3'' = ''/proxy//v3''"
    by simp
  have h1: "CHR ''/'' \<notin> set ''coriolis.local:3000''" by simp
  have h2: "\<forall>c\<in>set ''coriolis.local:3000''. \<not> line_terminator c"
    by (simp add: line_terminator_def)
  have r2: "replace_origin ''https://host/api/replicas/0123456789abcdef0123456789abcdef/executions''
      = ''/api/replicas/0123456789abcdef0123456789abcdef/executions''"
    by (simp add: match_here_def line_terminator_def)
  from t [where host = "''coriolis.local:3000''" and rest = "''api/replicas''"] h1 h2
  have a: "replace_origin (''http://'' @ ''coriolis.local:3000'' @ ''/'' @ ''api/replicas'') = ''/'' @ ''api/replicas''"
    by blast
  have s: "length (replace_origin ''/api/users'' @ replace_origin ''/api/users'') \<le> 100"
    unfolding r1 by simp
  from t [where u = "''/api/users''"] s
  have b: "truncateUrl ''/api/users'' = replace_origin ''/api/users'' @ replace_origin ''/api/users''"
    by blast
  have l: "length (replace_origin ''https://host/api/replicas/0123456789abcdef0123456789abcdef/executions''
         @ replace_origin ''https://host/api/replicas/0123456789abcdef0123456789abcdef/executions'') > 100"
    unfolding r2 by simp
  from t [where u = "''https://host/api/replicas/0123456789abcdef0123456789abcdef/executions''"] l
  have c: "truncateUrl ''https://host/api/replicas/0123456789abcdef0123456789abcdef/executions'' =
      take 100 (replace_origin ''https://host/api/replicas/0123456789abcdef0123456789abcdef/executions''
         @ replace_origin ''https://host/api/replicas/0123456789abcdef0123456789abcdef/executions'') @ ''...''"
    by blast
  have h2': "list_all (\<lambda>c. \<not> line_terminator c) ''coriolis.local:3000''"
    using h2 by (simp only: list_all_iff)
  from a have a': "replace_origin (''http://'' @ ''coriolis.local:3000'' @ ''/'' @ ''api/replicas'') = ''/api/replicas''"
    by simp
  from b have b': "truncateUrl ''/api/users'' = ''/api/users/api/users''"
    unfolding r1 by simp
  from c have c': "truncateUrl ''https://host/api/replicas/0123456789abcdef0123456789abcdef/executions'' =
       ''/api/replicas/0123456789abcdef0123456789abcdef/executions/api/replicas/0123456789abcdef0123456789abc...''"
    unfolding r2 by simp
  from nh r1 mp r3 h1 h2' a' s b' l c' show ?thesis by blast
qed

theorem truncateUrl_example_lengths_counterexample:
  "replace_origin ''https://host/api/migrations/abc'' = ''/api/migrations/abc''
   \<and> length (replace_origin ''https://host/api/migrations/abc'') \<noteq> 20
   \<and> length (replace_origin ''https://host/api/migrations/abc''
             @ replace_origin ''https://host/api/migrations/abc'') \<noteq> 40
   \<and> replace_origin ''https://host'' = ''https://host''
   \<and> replace_origin ''/proxy/http://10.0.0.1/v3'' = ''/proxy//v3''"
proof -
  have "replace_origin ''https://host'' = ''https://host''"
    by (simp add: match_here_def line_terminator_def)
  moreover have "replace_origin ''/proxy/http://10.0.0.1/v3'' = ''/proxy//v3''"
    by (simp add: match_here_def line_terminator_def)
  moreover have "length (replace_origin ''https://host/api/migrations/abc'') \<noteq> 20"
    unfolding replace_origin_example by simp
  moreover have "length (replace_origin ''https://host/api/migrations/abc''
             @ replace_origin ''https://host/api/migrations/abc'') \<noteq> 40"
    unfolding replace_origin_example by simp
  ultimately show ?thesis using replace_origin_example by blast
qed

subsection \<open>indexOf and containment\<close>





subsection \<open>The handlers, field by field\<close>

lemma snd_send_then: "snd (send_then options ax b r w) = Resolved (response_object r)"
  by (simp add: send_then_def Let_def)

lemma snd_send_catch:
  "snd (send_catch options ax b err w) =
     (case response err of
        Some r \<Rightarrow> (case request err of None \<Rightarrow> Unsettled | Some q \<Rightarrow> Rejected (response_object r))
      | None \<Rightarrow>
          (case request err of
             Some q \<Rightarrow> Rejected (JObj [])
           | None \<Rightarrow> Rejected (JObj [(''canceled'', JBool (constructor_name err = ''Cancel''))])))"
  by (simp add: send_catch_def Let_def split: option.splits)

lemma navigations_redirect:
  "navigations (redirect s b w) =
     (if s = 401 \<and> \<not> isOnLoginPage b
      then navigations w @ [''/login?prev='' @ (if pathname b = ''/'' then ''/'' else pathname b @ search b)]
      else navigations w)"
  by (simp add: redirect_def Let_def)

lemma navigations_send_then: "navigations (fst (send_then options ax b r w)) = navigations w"
  by (simp add: send_then_def Let_def logger_log_def)

lemma navigations_send_catch:
  "navigations (fst (send_catch options ax b err w)) =
     (case response err of
        None \<Rightarrow> navigations w
      | Some r \<Rightarrow>
          (case request err of
             None \<Rightarrow> navigations w
           | Some q \<Rightarrow>
               if indexOf (responseURL q) ''/proxy/'' = - 1
                  \<and> indexOf (responseURL q) ''/azure-login'' = - 1
               then navigations (redirect (status r) b w) else navigations w))"
  by (auto simp add: send_catch_def Let_def logger_log_def notify_alert_def navigations_redirect
      split: option.splits)

lemma alerts_redirect: "alerts (redirect s b w) = alerts w"
  by (simp add: redirect_def Let_def)

lemma alerts_send_then: "alerts (fst (send_then options ax b r w)) = alerts w"
  by (simp add: send_then_def Let_def logger_log_def)

lemma alerts_send_catch:
  "alerts (fst (send_catch options ax b err w)) =
     (case response err of
        Some r \<Rightarrow>
          if (status r \<noteq> 401 \<or> \<not> isOnLoginPage b) \<and> \<not> flag (quietError options)
          then alerts w @ [serverErrorAlert options ax r] else alerts w
      | None \<Rightarrow>
          (case request err of
             Some q \<Rightarrow>
               if \<not> isOnLoginPage b \<and> \<not> flag (quietError options)
               then alerts w @ [connectionAlert options ax ''Request was made but no response was received'']
               else alerts w
           | None \<Rightarrow>
               if constructor_name err = ''Cancel'' then alerts w
               else alerts w @ [connectionAlert options ax ''Something happened in setting up the request'']))"
  by (auto simp add: send_catch_def Let_def logger_log_def notify_alert_def alerts_redirect
      split: option.splits)

lemma logEntries_send_catch_cancelled:
  "classify err = Cancelled \<Longrightarrow>
   logEntries (fst (send_catch options ax b err w)) =
     logEntries w @ [(now b, (logEntry ax RESPONSE)\<lparr>requestStatus := Some (StatusLabel ''canceled'')\<rparr>)]"
  by (simp add: classify_def send_catch_def Let_def logger_log_def split: option.splits if_splits)

lemma send_dispatch_frame:
  "alerts (snd (send_dispatch options b w)) = alerts w"
  "navigations (snd (send_dispatch options b w)) = navigations w"
  "cancelCalls (snd (send_dispatch options b w)) = cancelCalls w"
  "cacheStore (snd (send_dispatch options b w)) = cacheStore w"
  by (simp_all add: send_dispatch_def Let_def logger_log_def addCancelable_def split: option.splits)

lemma send_miss:
  "\<not> truthy (cachedData options b w) \<Longrightarrow>
   send options b outcome w =
     send_settle options (fst (send_dispatch options b w)) b outcome (snd (send_dispatch options b w))"
  by (simp add: send_def Let_def)

lemma send_hit:
  "truthy (cachedData options b w) \<Longrightarrow>
   send options b outcome w = (w, Resolved (JObj [(''data'', cachedData options b w)]))"
  by (simp add: send_def Let_def)

lemma send_quietError_settlement:
  "snd (send (options\<lparr>quietError := q\<rparr>) b outcome w) = snd (send options b outcome w)"
proof -
  have c: "cachedData (options\<lparr>quietError := q\<rparr>) b w = cachedData options b w"
    by (simp add: cachedData_def)
  have d: "send_dispatch (options\<lparr>quietError := q\<rparr>) b w = send_dispatch options b w"
    by (simp add: send_dispatch_def buildAxiosOptions_def)
  show ?thesis
    by (cases outcome) (simp_all add: send_def Let_def c d send_settle_def snd_send_then snd_send_catch)
qed

lemma navigations_send:
  "navigations (fst (send options b outcome w)) =
     (case outcome of
        Fulfilled r \<Rightarrow> navigations w
      | Failed err \<Rightarrow>
          if truthy (cachedData options b w) then navigations w
          else navigations (fst (send_catch options (fst (send_dispatch options b w)) b err
                                   (snd (send_dispatch options b w)))))"
  by (cases "truthy (cachedData options b w)")
     (simp_all add: send_hit send_miss send_settle_def navigations_send_then send_dispatch_frame
        split: transport_outcome.splits)

lemma logEntries_send_dispatch:
  "logEntries (snd (send_dispatch options b w)) =
     logEntries w @
       (if flag (skipLog options) then []
        else [(now b, logEntry (fst (send_dispatch options b w)) REQUEST)])"
  by (simp add: send_dispatch_def Let_def logger_log_def addCancelable_def split: option.splits)

subsection \<open>The cache-hit path\<close>

text \<open>
  C1, as amended. For every call of \<^verbatim>\<open>send\<close> with \<^verbatim>\<open>cache\<close> set to true for which
  the cache read for the request's url returns a truthy payload (not null, false, 0
  or the empty string), \<^verbatim>\<open>send\<close> resolves at once with that payload as the
  response's data and leaves the world as it was: no call is handed to the
  transport, no log entry is appended, no cancelable is registered, whatever
  \<^verbatim>\<open>cancelId\<close> and the transport say.
\<close>

theorem cache_hit_resolves_without_network:
  assumes "flag (cache options)"
    and "truthy (cacher_load (url options) (cacheFor options) (now b) (cacheStore w))"
  shows "send options b outcome w =
      (w, Resolved (JObj [(''data'',
             cacher_load (url options) (cacheFor options) (now b) (cacheStore w))]))
    \<and> dispatched (fst (send options b outcome w)) = dispatched w
    \<and> logEntries (fst (send options b outcome w)) = logEntries w
    \<and> cancelables (fst (send options b outcome w)) = cancelables w"
proof -
  from assms have "cachedData options b w =
      cacher_load (url options) (cacheFor options) (now b) (cacheStore w)"
    by (simp add: cachedData_def)
  with assms(2) send_hit [of options b w outcome] show ?thesis by simp
qed

theorem cache_hit_resolves_without_network_witness:
  "flag (cache ((url_only ''/x'')\<lparr>cache := Some True, cancelId := Some ''grp1''\<rparr>))
   \<and> truthy (cacher_load ''/x'' None 5 [(''/x'', \<lparr>entry_data = JArr [JNum 1], storedAt = 0\<rparr>)])
   \<and> send ((url_only ''/x'')\<lparr>cache := Some True, cancelId := Some ''grp1''\<rparr>)
        \<lparr>pathname = ''/replicas'', search = [], now = 5\<rparr>
        (Failed \<lparr>response = None, request = None, constructor_name = ''Error''\<rparr>)
        (initial_world\<lparr>cacheStore := [(''/x'', \<lparr>entry_data = JArr [JNum 1], storedAt = 0\<rparr>)]\<rparr>)
      = (initial_world\<lparr>cacheStore := [(''/x'', \<lparr>entry_data = JArr [JNum 1], storedAt = 0\<rparr>)]\<rparr>,
         Resolved (JObj [(''data'', JArr [JNum 1])]))"
proof -
  let ?o = "(url_only ''/x'')\<lparr>cache := Some True, cancelId := Some ''grp1''\<rparr>"
  let ?b = "\<lparr>pathname = ''/replicas'', search = [], now = 5\<rparr>"
  let ?w = "initial_world\<lparr>cacheStore := [(''/x'', \<lparr>entry_data = JArr [JNum 1], storedAt = 0\<rparr>)]\<rparr>"
  have f: "flag (cache ?o)" by (simp add: flag_def)
  have v: "cacher_load (url ?o) (cacheFor ?o) (now ?b) (cacheStore ?w) = JArr [JNum 1]"
    by (simp add: cacher_load_def url_only_def)
  then have t: "truthy (cacher_load (url ?o) (cacheFor ?o) (now ?b) (cacheStore ?w))"
    by simp
  have v': "cacher_load ''/x'' None 5 [(''/x'', \<lparr>entry_data = JArr [JNum 1], storedAt = 0\<rparr>)] = JArr [JNum 1]"
    by (simp add: cacher_load_def)
  from cache_hit_resolves_without_network [OF f t]
  have "send ?o ?b (Failed \<lparr>response = None, request = None, constructor_name = ''Error''\<rparr>) ?w =
      (?w, Resolved (JObj [(''data'', cacher_load (url ?o) (cacheFor ?o) (now ?b) (cacheStore ?w))]))"
    by blast
  then show ?thesis unfolding v using f v' by simp
qed

theorem falsy_cached_payload_counterexample:
  "flag (cache ((url_only ''/x'')\<lparr>cache := Some True\<rparr>))
   \<and> cacher_load ''/x'' None 5 [(''/x'', \<lparr>entry_data = JStr [], storedAt = 0\<rparr>)] = JStr []
   \<and> snd (send ((url_only ''/x'')\<lparr>cache := Some True\<rparr>)
        \<lparr>pathname = ''/replicas'', search = [], now = 5\<rparr>
        (Fulfilled \<lparr>status = 200, statusText = ''OK'', resp_data = JStr ''fresh'', resp_headers = []\<rparr>)
        (initial_world\<lparr>cacheStore := [(''/x'', \<lparr>entry_data = JStr [], storedAt = 0\<rparr>)]\<rparr>))
      \<noteq> Resolved (JObj [(''data'', JStr [])])
   \<and> dispatched (fst (send ((url_only ''/x'')\<lparr>cache := Some True\<rparr>)
        \<lparr>pathname = ''/replicas'', search = [], now = 5\<rparr>
        (Fulfilled \<lparr>status = 200, statusText = ''OK'', resp_data = JStr ''fresh'', resp_headers = []\<rparr>)
        (initial_world\<lparr>cacheStore := [(''/x'', \<lparr>entry_data = JStr [], storedAt = 0\<rparr>)]\<rparr>)))
      = [buildAxiosOptions ((url_only ''/x'')\<lparr>cache := Some True\<rparr>)]"
proof -
  let ?o = "(url_only ''/x'')\<lparr>cache := Some True\<rparr>"
  let ?b = "\<lparr>pathname = ''/replicas'', search = [], now = 5\<rparr>"
  let ?w = "initial_world\<lparr>cacheStore := [(''/x'', \<lparr>entry_data = JStr [], storedAt = 0\<rparr>)]\<rparr>"
  have f: "flag (cache ?o)" by (simp add: flag_def)
  have v: "cacher_load ''/x'' None 5 [(''/x'', \<lparr>entry_data = JStr [], storedAt = 0\<rparr>)] = JStr []"
    by (simp add: cacher_load_def)
  have c: "cachedData ?o ?b ?w = JStr []"
    by (simp add: cachedData_def flag_def cacher_load_def url_only_def)
  then have miss: "\<not> truthy (cachedData ?o ?b ?w)" by simp
  have d: "send_dispatch ?o ?b ?w =
      (buildAxiosOptions ?o,
       ?w\<lparr>logEntries := [(5, logEntry (buildAxiosOptions ?o) REQUEST)],
           dispatched := [buildAxiosOptions ?o]\<rparr>)"
    by (simp add: send_dispatch_def Let_def url_only_def flag_def logger_log_def initial_world_def)
  have s: "snd (send ?o ?b (Fulfilled r) ?w) = Resolved (response_object r)" for r
    by (simp add: send_miss [OF miss] send_settle_def snd_send_then)
  have n: "dispatched (fst (send ?o ?b (Fulfilled r) ?w)) = [buildAxiosOptions ?o]" for r
    unfolding send_miss [OF miss] d
    by (simp add: send_settle_def send_then_def Let_def logger_log_def)
  have "response_object \<lparr>status = 200, statusText = ''OK'', resp_data = JStr ''fresh'', resp_headers = []\<rparr>
      \<noteq> JObj [(''data'', JStr [])]"
    by (simp add: response_object_def)
  with f v s n show ?thesis by simp
qed

text \<open>
  C9. A call served from the cache resolves with the object \<^verbatim>\<open>{ data: cachedData }\<close>:
  reading any other property of it, \<^verbatim>\<open>status\<close>, \<^verbatim>\<open>statusText\<close> and \<^verbatim>\<open>headers\<close>
  among them, gives undefined, and it is no response object of the transport. On
  the network path a fulfilled call resolves with the transport's response, whose
  \<^verbatim>\<open>status\<close>, \<^verbatim>\<open>statusText\<close> and \<^verbatim>\<open>headers\<close> are populated.
\<close>

theorem cache_hit_value_has_only_data:
  assumes "truthy (cachedData options b w)"
  shows "snd (send options b outcome w) = Resolved (JObj [(''data'', cachedData options b w)])
    \<and> (k \<noteq> ''data'' \<longrightarrow> get_prop (JObj [(''data'', cachedData options b w)]) k = JUndefined)
    \<and> get_prop (JObj [(''data'', cachedData options b w)]) ''status'' = JUndefined
    \<and> get_prop (JObj [(''data'', cachedData options b w)]) ''statusText'' = JUndefined
    \<and> get_prop (JObj [(''data'', cachedData options b w)]) ''headers'' = JUndefined
    \<and> snd (send options b outcome w) \<noteq> Resolved (response_object r)
    \<and> (\<not> truthy (cachedData options' b' w') \<longrightarrow>
         snd (send options' b' (Fulfilled r) w') = Resolved (response_object r))
    \<and> get_prop (response_object r) ''status'' = JNum (int (status r))
    \<and> get_prop (response_object r) ''statusText'' = JStr (statusText r)
    \<and> get_prop (response_object r) ''headers'' \<noteq> JUndefined"
proof -
  have net: "snd (send options' b' (Fulfilled r) w') = Resolved (response_object r)"
    if "\<not> truthy (cachedData options' b' w')"
    using that by (simp add: send_miss send_settle_def snd_send_then)
  have props: "get_prop (response_object r) ''status'' = JNum (int (status r))"
    "get_prop (response_object r) ''statusText'' = JStr (statusText r)"
    "get_prop (response_object r) ''headers'' \<noteq> JUndefined"
    by (simp_all add: response_object_def)
  have diff: "JObj [(''data'', cachedData options b w)] \<noteq> response_object r"
    by (simp add: response_object_def)
  from assms net props diff show ?thesis
    by (simp add: send_hit)
qed

theorem cache_hit_value_has_only_data_witness:
  "truthy (cachedData ((url_only ''/x'')\<lparr>cache := Some True\<rparr>)
        \<lparr>pathname = ''/replicas'', search = [], now = 5\<rparr>
        (initial_world\<lparr>cacheStore := [(''/x'', \<lparr>entry_data = JNum 7, storedAt = 0\<rparr>)]\<rparr>))
   \<and> snd (send ((url_only ''/x'')\<lparr>cache := Some True\<rparr>)
        \<lparr>pathname = ''/replicas'', search = [], now = 5\<rparr>
        (Fulfilled \<lparr>status = 200, statusText = ''OK'', resp_data = JNum 8, resp_headers = []\<rparr>)
        (initial_world\<lparr>cacheStore := [(''/x'', \<lparr>entry_data = JNum 7, storedAt = 0\<rparr>)]\<rparr>))
      = Resolved (JObj [(''data'', JNum 7)])
   \<and> \<not> truthy (cachedData (url_only ''/x'') \<lparr>pathname = ''/replicas'', search = [], now = 5\<rparr> initial_world)
   \<and> snd (send (url_only ''/x'') \<lparr>pathname = ''/replicas'', search = [], now = 5\<rparr>
        (Fulfilled \<lparr>status = 200, statusText = ''OK'', resp_data = JNum 8, resp_headers = []\<rparr>)
        initial_world)
      = Resolved (JObj [(''data'', JNum 8), (''status'', JNum 200), (''statusText'', JStr ''OK''),
                        (''headers'', JObj [])])"
proof -
  let ?o = "(url_only ''/x'')\<lparr>cache := Some True\<rparr>"
  let ?b = "\<lparr>pathname = ''/replicas'', search = [], now = 5\<rparr>"
  let ?w = "initial_world\<lparr>cacheStore := [(''/x'', \<lparr>entry_data = JNum 7, storedAt = 0\<rparr>)]\<rparr>"
  let ?r = "\<lparr>status = 200, statusText = ''OK'', resp_data = JNum 8, resp_headers = []\<rparr>"
  have c: "cachedData ?o ?b ?w = JNum 7"
    by (simp add: cachedData_def flag_def cacher_load_def url_only_def)
  then have hit: "truthy (cachedData ?o ?b ?w)" by simp
  have miss: "\<not> truthy (cachedData (url_only ''/x'') ?b initial_world)"
    by (simp add: cachedData_def flag_def url_only_def)
  note t = cache_hit_value_has_only_data
    [OF hit, where outcome = "Fulfilled ?r" and r = ?r and options' = "url_only ''/x''"
       and b' = ?b and w' = initial_world]
  from t have a: "snd (send ?o ?b (Fulfilled ?r) ?w) = Resolved (JObj [(''data'', cachedData ?o ?b ?w)])"
    by blast
  from t miss have n: "snd (send (url_only ''/x'') ?b (Fulfilled ?r) initial_world) = Resolved (response_object ?r)"
    by blast
  have r: "response_object ?r =
      JObj [(''data'', JNum 8), (''status'', JNum 200), (''statusText'', JStr ''OK''), (''headers'', JObj [])]"
    by (simp add: response_object_def)
  from hit miss a n show ?thesis unfolding c r by blast
qed

subsection \<open>Redirect to the login page\<close>

lemma navigations_send_failed:
  "navigations (fst (send options b (Failed err) w)) =
     (case response err of
        None \<Rightarrow> navigations w
      | Some r \<Rightarrow>
          (case request err of
             None \<Rightarrow> navigations w
           | Some q \<Rightarrow>
               if \<not> truthy (cachedData options b w)
                  \<and> indexOf (responseURL q) ''/proxy/'' = - 1
                  \<and> indexOf (responseURL q) ''/azure-login'' = - 1
                  \<and> status r = 401 \<and> \<not> isOnLoginPage b
               then navigations w @
                      [''/login?prev='' @ (if pathname b = ''/'' then ''/'' else pathname b @ search b)]
               else navigations w))"
  by (simp add: navigations_send navigations_send_catch navigations_redirect send_dispatch_frame
      split: option.splits)

lemma navigations_send_catch_401:
  "navigations (fst (send_catch options ax b err w)) =
     (case response err of
        None \<Rightarrow> navigations w
      | Some r \<Rightarrow>
          (case request err of
             None \<Rightarrow> navigations w
           | Some q \<Rightarrow>
               if indexOf (responseURL q) ''/proxy/'' = - 1
                  \<and> indexOf (responseURL q) ''/azure-login'' = - 1
                  \<and> status r = 401 \<and> \<not> isOnLoginPage b
               then navigations w @
                      [''/login?prev='' @ (if pathname b = ''/'' then ''/'' else pathname b @ search b)]
               else navigations w))"
  by (simp add: navigations_send_catch navigations_redirect split: option.splits)

lemma navigations_cancelRequests: "navigations (cancelRequests tag w) = navigations w"
  by (simp add: cancelRequests_def Let_def)

lemma send_settle_Failed:
  "send_settle options ax b (Failed err) w = send_catch options ax b err w"
  by (simp add: send_settle_def)

lemma send_settle_Fulfilled:
  "send_settle options ax b (Fulfilled r) w = send_then options ax b r w"
  by (simp add: send_settle_def)




text \<open>
  C7. The login redirect is never made from the no-response, cancelled or
  setup-failure bucket: a handler navigates only when the transport's failure carries
  a response and that response's status is 401. This holds of the failure handler
  and of the success handler in whatever world they run, of every step the module
  takes (the synchronous part of a \<^verbatim>\<open>send\<close> and \<^verbatim>\<open>cancelRequests\<close> navigate
  nowhere), and of \<^verbatim>\<open>send\<close> taken in one piece. What is navigated to, if anything,
  is one address, under \<^verbatim>\<open>/login\<close>.
\<close>

theorem login_redirect_only_after_401_response:
  "(navigations (fst (send_settle options ax b outcome w)) \<noteq> navigations w \<longrightarrow>
      (\<exists>err r. outcome = Failed err \<and> classify err = ServerError
         \<and> response err = Some r \<and> status r = 401))
   \<and> (classify err \<noteq> ServerError \<longrightarrow>
        navigations (fst (send_catch options ax b err w)) = navigations w)
   \<and> navigations (fst (send_then options ax b r w)) = navigations w
   \<and> (navigations (perform s w) \<noteq> navigations w \<longrightarrow>
        (\<exists>options' ax' b' err' r'. s = Settled options' ax' b' (Failed err')
           \<and> classify err' = ServerError \<and> response err' = Some r' \<and> status r' = 401))
   \<and> (navigations (perform s w) = navigations w
       \<or> (\<exists>p. navigations (perform s w) = navigations w @ [''/login'' @ p]))
   \<and> (navigations (fst (send options b outcome w)) \<noteq> navigations w \<longrightarrow>
      (\<exists>err r. outcome = Failed err \<and> classify err = ServerError
         \<and> response err = Some r \<and> status r = 401))
   \<and> (classify err \<noteq> ServerError \<longrightarrow>
        navigations (fst (send options b (Failed err) w)) = navigations w)
   \<and> navigations (fst (send options b (Fulfilled r) w)) = navigations w
   \<and> (navigations (fst (send options b outcome w)) = navigations w
       \<or> (\<exists>p. navigations (fst (send options b outcome w)) = navigations w @ [''/login'' @ p]))"
proof -
  have catch_other: "navigations (fst (send_catch options' ax' b' e w')) = navigations w'"
    if "classify e \<noteq> ServerError" for options' ax' b' e w'
    using that by (simp add: navigations_send_catch_401 classify_def split: option.splits)
  have settle_only: "\<exists>err r. outcome' = Failed err \<and> classify err = ServerError
         \<and> response err = Some r \<and> status r = 401"
    if "navigations (fst (send_settle options' ax' b' outcome' w')) \<noteq> navigations w'"
    for options' ax' b' outcome' w'
  proof (cases outcome')
    case (Fulfilled r')
    with that show ?thesis by (simp add: send_settle_Fulfilled navigations_send_then)
  next
    case (Failed e)
    with that have "navigations (fst (send_catch options' ax' b' e w')) \<noteq> navigations w'"
      by (simp add: send_settle_Failed)
    then obtain r' where "response e = Some r'" and "status r' = 401"
      by (auto simp: navigations_send_catch_401 split: option.splits if_splits)
    with Failed show ?thesis by (simp add: classify_def)
  qed
  have settle_shape: "navigations (fst (send_settle options' ax' b' outcome' w')) = navigations w'
       \<or> (\<exists>p. navigations (fst (send_settle options' ax' b' outcome' w')) = navigations w' @ [''/login'' @ p])"
    for options' ax' b' outcome' w'
    by (cases outcome')
       (simp_all add: send_settle_Fulfilled send_settle_Failed navigations_send_then
          navigations_send_catch_401 split: option.splits)
  have step_only: "\<exists>options' ax' b' err' r'. s = Settled options' ax' b' (Failed err')
           \<and> classify err' = ServerError \<and> response err' = Some r' \<and> status r' = 401"
    if "navigations (perform s w) \<noteq> navigations w"
  proof (cases s)
    case (Sent o' b')
    with that show ?thesis by (simp add: send_dispatch_frame split: if_splits)
  next
    case (Settled o' ax' b' outcome')
    with that settle_only [of o' ax' b' outcome' w] show ?thesis by auto
  next
    case (CancelRequested tag)
    with that show ?thesis by (simp add: navigations_cancelRequests)
  qed
  have step_shape: "navigations (perform s w) = navigations w
       \<or> (\<exists>p. navigations (perform s w) = navigations w @ [''/login'' @ p])"
  proof (cases s)
    case (Sent o' b')
    then show ?thesis by (simp add: send_dispatch_frame)
  next
    case (Settled o' ax' b' outcome')
    with settle_shape [of o' ax' b' outcome' w] show ?thesis by simp
  next
    case (CancelRequested tag)
    then show ?thesis by (simp add: navigations_cancelRequests)
  qed
  have ok: "navigations (fst (send options b (Fulfilled r') w)) = navigations w" for r'
    by (simp add: navigations_send)
  have other: "navigations (fst (send options b (Failed err) w)) = navigations w"
    if "classify err \<noteq> ServerError"
    using that by (simp add: navigations_send_failed classify_def split: option.splits)
  have only: "\<exists>err r. outcome = Failed err \<and> classify err = ServerError
         \<and> response err = Some r \<and> status r = 401"
    if "navigations (fst (send options b outcome w)) \<noteq> navigations w"
  proof (cases outcome)
    case (Fulfilled r')
    with that ok show ?thesis by simp
  next
    case (Failed e)
    with that have "navigations (fst (send options b (Failed e) w)) \<noteq> navigations w"
      by simp
    then obtain r' where "response e = Some r'" and "status r' = 401"
      by (auto simp: navigations_send_failed split: option.splits if_splits)
    with Failed show ?thesis by (simp add: classify_def)
  qed
  have shape: "navigations (fst (send options b outcome w)) = navigations w
       \<or> (\<exists>p. navigations (fst (send options b outcome w)) = navigations w @ [''/login'' @ p])"
  proof (cases outcome)
    case (Fulfilled r')
    with ok show ?thesis by simp
  next
    case (Failed e)
    then show ?thesis
      by (simp add: navigations_send_failed split: option.splits)
  qed
  show ?thesis
    apply (intro conjI impI)
    subgoal by (rule settle_only)
    subgoal by (rule catch_other)
    subgoal by (rule navigations_send_then)
    subgoal by (rule step_only)
    subgoal by (rule step_shape)
    subgoal by (rule only)
    subgoal by (rule other)
    subgoal by (rule ok)
    subgoal by (rule shape)
    done
qed

theorem login_redirect_only_after_401_response_witness:
  "navigations (fst (send_settle (url_only ''/api/replicas'')
        (buildAxiosOptions (url_only ''/api/replicas''))
        \<lparr>pathname = ''/replicas'', search = [], now = 9\<rparr>
        (Failed \<lparr>response = Some \<lparr>status = 401, statusText = ''Unauthorized'', resp_data = JNull, resp_headers = []\<rparr>,
                 request = Some \<lparr>responseURL = ''http://host/api/replicas''\<rparr>,
                 constructor_name = ''Error''\<rparr>)
        (run [Sent (url_only ''/api/replicas'') \<lparr>pathname = ''/replicas'', search = [], now = 0\<rparr>,
              Sent (url_only ''/api/endpoints'') \<lparr>pathname = ''/replicas'', search = [], now = 1\<rparr>]
           initial_world)))
     \<noteq> navigations
        (run [Sent (url_only ''/api/replicas'') \<lparr>pathname = ''/replicas'', search = [], now = 0\<rparr>,
              Sent (url_only ''/api/endpoints'') \<lparr>pathname = ''/replicas'', search = [], now = 1\<rparr>]
           initial_world)
   \<and> (\<exists>err r. Failed \<lparr>response = Some \<lparr>status = 401, statusText = ''Unauthorized'', resp_data = JNull, resp_headers = []\<rparr>,
                 request = Some \<lparr>responseURL = ''http://host/api/replicas''\<rparr>,
                 constructor_name = ''Error''\<rparr> = Failed err
          \<and> classify err = ServerError \<and> response err = Some r \<and> status r = 401)
   \<and> classify \<lparr>response = None, request = Some \<lparr>responseURL = []\<rparr>, constructor_name = ''Error''\<rparr> \<noteq> ServerError
   \<and> navigations (fst (send_catch (url_only ''/api/replicas'')
        (buildAxiosOptions (url_only ''/api/replicas''))
        \<lparr>pathname = ''/replicas'', search = [], now = 9\<rparr>
        \<lparr>response = None, request = Some \<lparr>responseURL = []\<rparr>, constructor_name = ''Error''\<rparr>
        (run [Sent (url_only ''/api/replicas'') \<lparr>pathname = ''/replicas'', search = [], now = 0\<rparr>,
              Sent (url_only ''/api/endpoints'') \<lparr>pathname = ''/replicas'', search = [], now = 1\<rparr>]
           initial_world)))
     = navigations
        (run [Sent (url_only ''/api/replicas'') \<lparr>pathname = ''/replicas'', search = [], now = 0\<rparr>,
              Sent (url_only ''/api/endpoints'') \<lparr>pathname = ''/replicas'', search = [], now = 1\<rparr>]
           initial_world)"
proof -
  let ?r = "\<lparr>status = 401, statusText = ''Unauthorized'', resp_data = JNull, resp_headers = []\<rparr>"
  let ?err = "\<lparr>response = Some ?r, request = Some \<lparr>responseURL = ''http://host/api/replicas''\<rparr>,
               constructor_name = ''Error''\<rparr>"
  let ?nr = "\<lparr>response = None, request = Some \<lparr>responseURL = []\<rparr>, constructor_name = ''Error''\<rparr>"
  let ?b = "\<lparr>pathname = ''/replicas'', search = [], now = 9\<rparr>"
  let ?o = "url_only ''/api/replicas''"
  let ?w = "run [Sent (url_only ''/api/replicas'') \<lparr>pathname = ''/replicas'', search = [], now = 0\<rparr>,
              Sent (url_only ''/api/endpoints'') \<lparr>pathname = ''/replicas'', search = [], now = 1\<rparr>]
           initial_world"
  have moved: "navigations (fst (send_settle ?o (buildAxiosOptions ?o) ?b (Failed ?err) ?w)) \<noteq> navigations ?w"
    by (simp add: send_settle_Failed navigations_send_catch_401 isOnLoginPage_def)
  have nr: "classify ?nr \<noteq> ServerError" by (simp add: classify_def)
  note t = login_redirect_only_after_401_response
    [where options = ?o and ax = "buildAxiosOptions ?o" and b = ?b and w = ?w
       and outcome = "Failed ?err" and err = ?nr]
  from t moved have e: "\<exists>err r. Failed ?err = Failed err \<and> classify err = ServerError
      \<and> response err = Some r \<and> status r = 401"
    by blast
  from t nr have s: "navigations (fst (send_catch ?o (buildAxiosOptions ?o) ?b ?nr ?w)) = navigations ?w"
    by blast
  from moved e nr s show ?thesis by blast
qed

subsection \<open>Failure buckets\<close>

lemma send_failed_is_handler:
  "\<not> truthy (cachedData options b w) \<Longrightarrow>
   send options b (Failed err) w =
     send_settle options (fst (send_dispatch options b w)) b (Failed err)
       (snd (send_dispatch options b w))"
  by (rule send_miss)

lemma classify_cases:
  "classify err = ServerError \<longleftrightarrow> response err \<noteq> None"
  "classify err = NoResponse \<longleftrightarrow> response err = None \<and> request err \<noteq> None"
  "classify err = Cancelled \<longleftrightarrow>
     response err = None \<and> request err = None \<and> constructor_name err = ''Cancel''"
  "classify err = SetupFailure \<longleftrightarrow>
     response err = None \<and> request err = None \<and> constructor_name err \<noteq> ''Cancel''"
  by (auto simp: classify_def split: option.splits)

text \<open>
  C5. With \<^verbatim>\<open>quietError\<close> true, a failure of the server-error bucket (the transport
  got a response) or of the no-response bucket raises no alert, where without it an
  alert is raised (unless the page is a login page and, for a server error, the
  status is 401). What the promise does is the same whatever \<^verbatim>\<open>quietError\<close> is: it
  rejects with the response in the first bucket (the failure carrying its request,
  as the transport's failures do) and with \<^verbatim>\<open>{}\<close> in the second. A setup failure
  raises its alert whatever \<^verbatim>\<open>quietError\<close> is, and rejects with
  \<^verbatim>\<open>{ canceled: false }\<close>. All this is what the failure handler does in whatever
  world it runs, with whatever was dispatched, cancelled or settled since the call
  was sent; \<^verbatim>\<open>send\<close> taken in one piece runs that handler on the world its own
  dispatch left, where the alerts are those of before.
\<close>

theorem quietError_suppresses_alert_only:
  "(flag (quietError options) \<and> (classify err = ServerError \<or> classify err = NoResponse) \<longrightarrow>
      alerts (fst (send_settle options ax b (Failed err) w)) = alerts w)
   \<and> (\<not> flag (quietError options) \<and> response err = Some r
        \<and> (status r \<noteq> 401 \<or> \<not> isOnLoginPage b) \<longrightarrow>
      alerts (fst (send_settle options ax b (Failed err) w)) =
        alerts w @ [serverErrorAlert options ax r])
   \<and> (\<not> flag (quietError options) \<and> classify err = NoResponse \<and> \<not> isOnLoginPage b \<longrightarrow>
      alerts (fst (send_settle options ax b (Failed err) w)) =
        alerts w @ [connectionAlert options ax ''Request was made but no response was received''])
   \<and> snd (send_settle (options\<lparr>quietError := v\<rparr>) ax b outcome w) =
       snd (send_settle options ax b outcome w)
   \<and> (response err = Some r \<and> request err = Some q \<longrightarrow>
        snd (send_settle options ax b (Failed err) w) = Rejected (response_object r))
   \<and> (classify err = NoResponse \<longrightarrow>
        snd (send_settle options ax b (Failed err) w) = Rejected (JObj []))
   \<and> (classify err = SetupFailure \<longrightarrow>
        snd (send_settle options ax b (Failed err) w) = Rejected (JObj [(''canceled'', JBool False)])
        \<and> alerts (fst (send_settle options ax b (Failed err) w)) =
            alerts w @ [connectionAlert options ax ''Something happened in setting up the request''])
   \<and> send_catch options ax b err w = send_settle options ax b (Failed err) w
   \<and> perform (Settled options ax b (Failed err)) w = fst (send_settle options ax b (Failed err) w)
   \<and> snd (send (options\<lparr>quietError := v\<rparr>) b outcome w) = snd (send options b outcome w)
   \<and> (\<not> truthy (cachedData options b w) \<longrightarrow>
        send options b (Failed err) w =
          send_settle options (fst (send_dispatch options b w)) b (Failed err)
            (snd (send_dispatch options b w))
        \<and> alerts (snd (send_dispatch options b w)) = alerts w)"
proof -
  note a = alerts_send_catch [of options ax b err w]
  note s = snd_send_catch [of options ax b err w]
  have c1: "alerts (fst (send_settle options ax b (Failed err) w)) = alerts w"
    if "flag (quietError options) \<and> (classify err = ServerError \<or> classify err = NoResponse)"
    using that unfolding send_settle_Failed a
    by (auto simp: classify_cases split: option.splits)
  have c2: "alerts (fst (send_settle options ax b (Failed err) w)) =
      alerts w @ [serverErrorAlert options ax r]"
    if "\<not> flag (quietError options) \<and> response err = Some r
        \<and> (status r \<noteq> 401 \<or> \<not> isOnLoginPage b)"
    using that unfolding send_settle_Failed a by auto
  have c3: "alerts (fst (send_settle options ax b (Failed err) w)) =
      alerts w @ [connectionAlert options ax ''Request was made but no response was received'']"
    if "\<not> flag (quietError options) \<and> classify err = NoResponse \<and> \<not> isOnLoginPage b"
    using that unfolding send_settle_Failed a
    by (auto simp: classify_cases split: option.splits)
  have c4: "snd (send_settle (options\<lparr>quietError := v\<rparr>) ax b outcome w) =
      snd (send_settle options ax b outcome w)"
    by (cases outcome) (simp_all add: send_settle_def snd_send_then snd_send_catch)
  have c5: "snd (send_settle options ax b (Failed err) w) = Rejected (response_object r)"
    if "response err = Some r \<and> request err = Some q"
    using that unfolding send_settle_Failed s by simp
  have c6: "snd (send_settle options ax b (Failed err) w) = Rejected (JObj [])"
    if "classify err = NoResponse"
    using that unfolding send_settle_Failed s
    by (auto simp: classify_cases split: option.splits)
  have c7: "snd (send_settle options ax b (Failed err) w) = Rejected (JObj [(''canceled'', JBool False)])"
    if "classify err = SetupFailure"
    using that unfolding send_settle_Failed s
    by (auto simp: classify_cases split: option.splits)
  have c8: "alerts (fst (send_settle options ax b (Failed err) w)) =
      alerts w @ [connectionAlert options ax ''Something happened in setting up the request'']"
    if "classify err = SetupFailure"
    using that unfolding send_settle_Failed a
    by (auto simp: classify_cases split: option.splits)
  show ?thesis
    apply (intro conjI impI)
    subgoal by (rule c1)
    subgoal by (rule c2)
    subgoal by (rule c3)
    subgoal by (rule c4)
    subgoal by (rule c5)
    subgoal by (rule c6)
    subgoal by (rule c7)
    subgoal by (rule c8)
    subgoal by (simp add: send_settle_Failed)
    subgoal by simp
    subgoal by (rule send_quietError_settlement)
    subgoal by (rule send_failed_is_handler)
    subgoal by (simp add: send_dispatch_frame)
    done
qed

theorem quietError_suppresses_alert_only_witness:
  "flag (quietError ((url_only ''/api/replicas'')\<lparr>quietError := Some True\<rparr>))
   \<and> classify \<lparr>response = None, request = Some \<lparr>responseURL = []\<rparr>, constructor_name = ''Error''\<rparr> = NoResponse
   \<and> alerts (fst (send_settle ((url_only ''/api/replicas'')\<lparr>quietError := Some True\<rparr>)
        (buildAxiosOptions (url_only ''/api/replicas''))
        \<lparr>pathname = ''/replicas'', search = [], now = 9\<rparr>
        (Failed \<lparr>response = None, request = Some \<lparr>responseURL = []\<rparr>, constructor_name = ''Error''\<rparr>)
        (run [Sent ((url_only ''/api/replicas'')\<lparr>quietError := Some True\<rparr>)
                \<lparr>pathname = ''/replicas'', search = [], now = 0\<rparr>,
              Sent (url_only ''/api/endpoints'') \<lparr>pathname = ''/replicas'', search = [], now = 1\<rparr>]
           initial_world))) = []
   \<and> snd (send_settle ((url_only ''/api/replicas'')\<lparr>quietError := Some True\<rparr>)
        (buildAxiosOptions (url_only ''/api/replicas''))
        \<lparr>pathname = ''/replicas'', search = [], now = 9\<rparr>
        (Failed \<lparr>response = None, request = Some \<lparr>responseURL = []\<rparr>, constructor_name = ''Error''\<rparr>)
        (run [Sent ((url_only ''/api/replicas'')\<lparr>quietError := Some True\<rparr>)
                \<lparr>pathname = ''/replicas'', search = [], now = 0\<rparr>,
              Sent (url_only ''/api/endpoints'') \<lparr>pathname = ''/replicas'', search = [], now = 1\<rparr>]
           initial_world)) = Rejected (JObj [])
   \<and> classify \<lparr>response = Some \<lparr>status = 500, statusText = ''Internal Server Error'',
                                   resp_data = JNull, resp_headers = []\<rparr>,
                request = Some \<lparr>responseURL = ''http://host/api/replicas''\<rparr>,
                constructor_name = ''Error''\<rparr> = ServerError
   \<and> alerts (fst (send_settle ((url_only ''/api/replicas'')\<lparr>quietError := Some True\<rparr>)
        (buildAxiosOptions (url_only ''/api/replicas''))
        \<lparr>pathname = ''/replicas'', search = [], now = 9\<rparr>
        (Failed \<lparr>response = Some \<lparr>status = 500, statusText = ''Internal Server Error'',
                                   resp_data = JNull, resp_headers = []\<rparr>,
                 request = Some \<lparr>responseURL = ''http://host/api/replicas''\<rparr>,
                 constructor_name = ''Error''\<rparr>)
        (run [Sent ((url_only ''/api/replicas'')\<lparr>quietError := Some True\<rparr>)
                \<lparr>pathname = ''/replicas'', search = [], now = 0\<rparr>,
              Sent (url_only ''/api/endpoints'') \<lparr>pathname = ''/replicas'', search = [], now = 1\<rparr>]
           initial_world))) = []
   \<and> snd (send_settle ((url_only ''/api/replicas'')\<lparr>quietError := Some True\<rparr>)
        (buildAxiosOptions (url_only ''/api/replicas''))
        \<lparr>pathname = ''/replicas'', search = [], now = 9\<rparr>
        (Failed \<lparr>response = Some \<lparr>status = 500, statusText = ''Internal Server Error'',
                                   resp_data = JNull, resp_headers = []\<rparr>,
                 request = Some \<lparr>responseURL = ''http://host/api/replicas''\<rparr>,
                 constructor_name = ''Error''\<rparr>)
        (run [Sent ((url_only ''/api/replicas'')\<lparr>quietError := Some True\<rparr>)
                \<lparr>pathname = ''/replicas'', search = [], now = 0\<rparr>,
              Sent (url_only ''/api/endpoints'') \<lparr>pathname = ''/replicas'', search = [], now = 1\<rparr>]
           initial_world))
      = Rejected (response_object \<lparr>status = 500, statusText = ''Internal Server Error'',
                                   resp_data = JNull, resp_headers = []\<rparr>)
   \<and> classify \<lparr>response = None, request = None, constructor_name = ''TypeError''\<rparr> = SetupFailure
   \<and> length (alerts (fst (send_settle ((url_only ''/api/replicas'')\<lparr>quietError := Some True\<rparr>)
        (buildAxiosOptions (url_only ''/api/replicas''))
        \<lparr>pathname = ''/replicas'', search = [], now = 9\<rparr>
        (Failed \<lparr>response = None, request = None, constructor_name = ''TypeError''\<rparr>)
        (run [Sent ((url_only ''/api/replicas'')\<lparr>quietError := Some True\<rparr>)
                \<lparr>pathname = ''/replicas'', search = [], now = 0\<rparr>,
              Sent (url_only ''/api/endpoints'') \<lparr>pathname = ''/replicas'', search = [], now = 1\<rparr>]
           initial_world)))) = 1
   \<and> snd (send_settle ((url_only ''/api/replicas'')\<lparr>quietError := Some True\<rparr>)
        (buildAxiosOptions (url_only ''/api/replicas''))
        \<lparr>pathname = ''/replicas'', search = [], now = 9\<rparr>
        (Failed \<lparr>response = None, request = None, constructor_name = ''TypeError''\<rparr>)
        (run [Sent ((url_only ''/api/replicas'')\<lparr>quietError := Some True\<rparr>)
                \<lparr>pathname = ''/replicas'', search = [], now = 0\<rparr>,
              Sent (url_only ''/api/endpoints'') \<lparr>pathname = ''/replicas'', search = [], now = 1\<rparr>]
           initial_world)) = Rejected (JObj [(''canceled'', JBool False)])"
proof -
  let ?o = "(url_only ''/api/replicas'')\<lparr>quietError := Some True\<rparr>"
  let ?ax = "buildAxiosOptions (url_only ''/api/replicas'')"
  let ?b = "\<lparr>pathname = ''/replicas'', search = [], now = 9\<rparr>"
  let ?w = "run [Sent ?o \<lparr>pathname = ''/replicas'', search = [], now = 0\<rparr>,
              Sent (url_only ''/api/endpoints'') \<lparr>pathname = ''/replicas'', search = [], now = 1\<rparr>]
           initial_world"
  let ?nr = "\<lparr>response = None, request = Some \<lparr>responseURL = []\<rparr>, constructor_name = ''Error''\<rparr>"
  let ?r = "\<lparr>status = 500, statusText = ''Internal Server Error'', resp_data = JNull, resp_headers = []\<rparr>"
  let ?q = "\<lparr>responseURL = ''http://host/api/replicas''\<rparr>"
  let ?se = "\<lparr>response = Some ?r, request = Some ?q, constructor_name = ''Error''\<rparr>"
  let ?sf = "\<lparr>response = None, request = None, constructor_name = ''TypeError''\<rparr>"
  have q: "flag (quietError ?o)" by (simp add: flag_def)
  have nr: "classify ?nr = NoResponse" by (simp add: classify_def)
  have se: "classify ?se = ServerError" by (simp add: classify_def)
  have se': "response ?se = Some ?r \<and> request ?se = Some ?q" by simp
  have sf: "classify ?sf = SetupFailure" by (simp add: classify_def)
  have i: "alerts ?w = []"
    by (simp add: run_def send_dispatch_frame initial_world_def)
  note t1 = quietError_suppresses_alert_only [where options = ?o and ax = ?ax and b = ?b and w = ?w and err = ?nr]
  note t2 = quietError_suppresses_alert_only [where options = ?o and ax = ?ax and b = ?b and w = ?w and err = ?sf]
  note t3 = quietError_suppresses_alert_only [where options = ?o and ax = ?ax and b = ?b and w = ?w and err = ?se
      and r = ?r and q = ?q]
  from t1 q nr have a1: "alerts (fst (send_settle ?o ?ax ?b (Failed ?nr) ?w)) = alerts ?w"
    by blast
  from t1 nr have s1: "snd (send_settle ?o ?ax ?b (Failed ?nr) ?w) = Rejected (JObj [])"
    by blast
  from t2 sf have a2: "alerts (fst (send_settle ?o ?ax ?b (Failed ?sf) ?w)) =
      alerts ?w @ [connectionAlert ?o ?ax ''Something happened in setting up the request'']"
    by blast
  from t2 sf have s2: "snd (send_settle ?o ?ax ?b (Failed ?sf) ?w) = Rejected (JObj [(''canceled'', JBool False)])"
    by blast
  from t3 q se have a3: "alerts (fst (send_settle ?o ?ax ?b (Failed ?se) ?w)) = alerts ?w"
    by blast
  from t3 se' have s3: "snd (send_settle ?o ?ax ?b (Failed ?se) ?w) = Rejected (response_object ?r)"
    by blast
  from a1 have a1': "alerts (fst (send_settle ?o ?ax ?b (Failed ?nr) ?w)) = []"
    unfolding i .
  from a2 have a2': "length (alerts (fst (send_settle ?o ?ax ?b (Failed ?sf) ?w))) = 1"
    unfolding i by simp
  from a3 have a3': "alerts (fst (send_settle ?o ?ax ?b (Failed ?se) ?w)) = []"
    unfolding i .
  from q nr a1' s1 se a3' s3 sf a2' s2 show ?thesis by blast
qed

lemma cancelRequests_frame:
  "alerts (cancelRequests tag w) = alerts w"
  "logEntries (cancelRequests tag w) = logEntries w"
  by (simp_all add: cancelRequests_def Let_def)

lemma send_dispatch_registers:
  assumes "cancelId options = Some tag" and "tag \<noteq> []"
  shows "ax_cancelToken (fst (send_dispatch options b w)) = Some (nextHandle w)"
    and "\<exists>rest. cancelables (snd (send_dispatch options b w)) =
           \<lparr>requestId = tag, cancel = nextHandle w\<rparr> # rest"
proof -
  show "ax_cancelToken (fst (send_dispatch options b w)) = Some (nextHandle w)"
    using assms by (simp add: send_dispatch_def Let_def)
  have "cancelables (snd (send_dispatch options b w)) =
      cancelables (addCancelable \<lparr>requestId = tag, cancel = nextHandle w\<rparr>
                     (w\<lparr>nextHandle := Suc (nextHandle w)\<rparr>))"
    using assms by (simp add: send_dispatch_def Let_def logger_log_def)
  then show "\<exists>rest. cancelables (snd (send_dispatch options b w)) =
      \<lparr>requestId = tag, cancel = nextHandle w\<rparr> # rest"
    by (cases "length (cancelables w) < 100") (auto simp: addCancelable_cancelables)
qed

text \<open>
  C6. When the failure is classified as cancelled (the transport rejects with a
  \<^verbatim>\<open>Cancel\<close> object, which carries neither response nor request, after the call's
  cancel handle was invoked), the promise rejects with \<^verbatim>\<open>{ canceled: true }\<close>, a
  RESPONSE log entry with status \<^verbatim>\<open>canceled\<close> is appended, and no alert is raised
  (nor anything navigated to). This is what the failure handler does in whatever
  world it runs. In particular, for a call sent with a non-empty \<^verbatim>\<open>cancelId\<close>: the
  dispatch registers the transport's cancel handle under that tag,
  \<^verbatim>\<open>cancelRequests\<close> of the tag invokes that handle and removes every entry of the
  tag, and the handler, run on the world \<^verbatim>\<open>cancelRequests\<close> left, rejects with
  \<^verbatim>\<open>{ canceled: true }\<close>, leaves the alerts as they were before the call and has the
  log end with the call's REQUEST entry (unless \<^verbatim>\<open>skipLog\<close>) and the RESPONSE entry
  with status \<^verbatim>\<open>canceled\<close>.
\<close>

theorem cancelled_send_rejects_quietly:
  assumes "classify err = Cancelled"
  shows "snd (send_settle options ax b (Failed err) w) = Rejected (JObj [(''canceled'', JBool True)])
    \<and> logEntries (fst (send_settle options ax b (Failed err) w)) =
        logEntries w @ [(now b, (logEntry ax RESPONSE)\<lparr>requestStatus := Some (StatusLabel ''canceled'')\<rparr>)]
    \<and> alerts (fst (send_settle options ax b (Failed err) w)) = alerts w
    \<and> navigations (fst (send_settle options ax b (Failed err) w)) = navigations w
    \<and> send_catch options ax b err w = send_settle options ax b (Failed err) w
    \<and> perform (Settled options ax b (Failed err)) w = fst (send_settle options ax b (Failed err) w)
    \<and> (cancelId options = Some tag \<and> tag \<noteq> [] \<longrightarrow>
          ax_cancelToken (fst (send_dispatch options earlier w)) = Some (nextHandle w)
          \<and> nextHandle w \<in> set (drop (length (cancelCalls w))
               (cancelCalls (cancelRequests tag (snd (send_dispatch options earlier w)))))
          \<and> list_all (\<lambda>r. requestId r \<noteq> tag)
               (cancelables (cancelRequests tag (snd (send_dispatch options earlier w))))
          \<and> snd (send_settle options (fst (send_dispatch options earlier w)) b (Failed err)
                   (cancelRequests tag (snd (send_dispatch options earlier w))))
              = Rejected (JObj [(''canceled'', JBool True)])
          \<and> alerts (fst (send_settle options (fst (send_dispatch options earlier w)) b (Failed err)
                   (cancelRequests tag (snd (send_dispatch options earlier w)))))
              = alerts w
          \<and> logEntries (fst (send_settle options (fst (send_dispatch options earlier w)) b (Failed err)
                   (cancelRequests tag (snd (send_dispatch options earlier w)))))
              = logEntries w
                @ (if flag (skipLog options) then []
                   else [(now earlier, logEntry (fst (send_dispatch options earlier w)) REQUEST)])
                @ [(now b, (logEntry (fst (send_dispatch options earlier w)) RESPONSE)
                             \<lparr>requestStatus := Some (StatusLabel ''canceled'')\<rparr>)])
    \<and> (\<not> truthy (cachedData options b w) \<longrightarrow>
          snd (send options b (Failed err) w) = Rejected (JObj [(''canceled'', JBool True)])
          \<and> logEntries (fst (send options b (Failed err) w)) =
              logEntries w
              @ (if flag (skipLog options) then []
                 else [(now b, logEntry (fst (send_dispatch options b w)) REQUEST)])
              @ [(now b, (logEntry (fst (send_dispatch options b w)) RESPONSE)
                           \<lparr>requestStatus := Some (StatusLabel ''canceled'')\<rparr>)]
          \<and> alerts (fst (send options b (Failed err) w)) = alerts w
          \<and> navigations (fst (send options b (Failed err) w)) = navigations w)"
proof -
  from assms have shape: "response err = None" "request err = None" "constructor_name err = ''Cancel''"
    by (simp_all add: classify_cases)
  have s: "snd (send_settle options' ax' b' (Failed err) w') = Rejected (JObj [(''canceled'', JBool True)])"
    for options' ax' b' w'
    unfolding send_settle_Failed snd_send_catch using shape by simp
  have l: "logEntries (fst (send_settle options' ax' b' (Failed err) w')) =
      logEntries w' @ [(now b', (logEntry ax' RESPONSE)\<lparr>requestStatus := Some (StatusLabel ''canceled'')\<rparr>)]"
    for options' ax' b' w'
    unfolding send_settle_Failed by (rule logEntries_send_catch_cancelled [OF assms])
  have a: "alerts (fst (send_settle options' ax' b' (Failed err) w')) = alerts w'"
    for options' ax' b' w'
    unfolding send_settle_Failed alerts_send_catch using shape by simp
  have n: "navigations (fst (send_settle options' ax' b' (Failed err) w')) = navigations w'"
    for options' ax' b' w'
    unfolding send_settle_Failed navigations_send_catch_401 using shape by simp
  let ?d = "send_dispatch options earlier w"
  have scenario: "ax_cancelToken (fst ?d) = Some (nextHandle w)
      \<and> nextHandle w \<in> set (drop (length (cancelCalls w)) (cancelCalls (cancelRequests tag (snd ?d))))
      \<and> list_all (\<lambda>r. requestId r \<noteq> tag) (cancelables (cancelRequests tag (snd ?d)))
      \<and> snd (send_settle options (fst ?d) b (Failed err) (cancelRequests tag (snd ?d)))
          = Rejected (JObj [(''canceled'', JBool True)])
      \<and> alerts (fst (send_settle options (fst ?d) b (Failed err) (cancelRequests tag (snd ?d)))) = alerts w
      \<and> logEntries (fst (send_settle options (fst ?d) b (Failed err) (cancelRequests tag (snd ?d))))
          = logEntries w
            @ (if flag (skipLog options) then [] else [(now earlier, logEntry (fst ?d) REQUEST)])
            @ [(now b, (logEntry (fst ?d) RESPONSE)\<lparr>requestStatus := Some (StatusLabel ''canceled'')\<rparr>)]"
    if "cancelId options = Some tag \<and> tag \<noteq> []"
  proof -
    from that have c: "cancelId options = Some tag" and t: "tag \<noteq> []" by simp_all
    from send_dispatch_registers(2) [OF c t, of earlier w] obtain rest where
      "cancelables (snd ?d) = \<lparr>requestId = tag, cancel = nextHandle w\<rparr> # rest" by blast
    then have inv: "nextHandle w \<in> set (drop (length (cancelCalls w))
        (cancelCalls (cancelRequests tag (snd ?d))))"
      by (simp add: cancelCalls_cancelRequests send_dispatch_frame)
    have gone: "list_all (\<lambda>r. requestId r \<noteq> tag) (cancelables (cancelRequests tag (snd ?d)))"
      by (simp add: cancelables_cancelRequests list_all_iff)
    have al: "alerts (fst (send_settle options (fst ?d) b (Failed err) (cancelRequests tag (snd ?d)))) = alerts w"
      by (simp add: a cancelRequests_frame send_dispatch_frame)
    have lg: "logEntries (fst (send_settle options (fst ?d) b (Failed err) (cancelRequests tag (snd ?d))))
          = logEntries w
            @ (if flag (skipLog options) then [] else [(now earlier, logEntry (fst ?d) REQUEST)])
            @ [(now b, (logEntry (fst ?d) RESPONSE)\<lparr>requestStatus := Some (StatusLabel ''canceled'')\<rparr>)]"
      by (simp add: l cancelRequests_frame logEntries_send_dispatch)
    from send_dispatch_registers(1) [OF c t, of earlier w] inv gone s al lg show ?thesis by blast
  qed
  have fused: "snd (send options b (Failed err) w) = Rejected (JObj [(''canceled'', JBool True)])
          \<and> logEntries (fst (send options b (Failed err) w)) =
              logEntries w
              @ (if flag (skipLog options) then []
                 else [(now b, logEntry (fst (send_dispatch options b w)) REQUEST)])
              @ [(now b, (logEntry (fst (send_dispatch options b w)) RESPONSE)
                           \<lparr>requestStatus := Some (StatusLabel ''canceled'')\<rparr>)]
          \<and> alerts (fst (send options b (Failed err) w)) = alerts w
          \<and> navigations (fst (send options b (Failed err) w)) = navigations w"
    if "\<not> truthy (cachedData options b w)"
    unfolding send_failed_is_handler [OF that]
    by (simp add: s l a n logEntries_send_dispatch send_dispatch_frame)
  show ?thesis
    apply (intro conjI)
    subgoal by (rule s)
    subgoal by (rule l)
    subgoal by (rule a)
    subgoal by (rule n)
    subgoal by (simp add: send_settle_Failed)
    subgoal by simp
    subgoal using scenario by blast
    subgoal using fused by blast
    done
qed

theorem cancelled_send_rejects_quietly_witness:
  "classify \<lparr>response = None, request = None, constructor_name = ''Cancel''\<rparr> = Cancelled
   \<and> 0 \<in> set (cancelCalls (cancelRequests ''grp1''
        (snd (send_dispatch ((url_only ''/y'')\<lparr>cancelId := Some ''grp1''\<rparr>)
           \<lparr>pathname = ''/replicas'', search = [], now = 3\<rparr> initial_world))))
   \<and> snd (send_settle ((url_only ''/y'')\<lparr>cancelId := Some ''grp1''\<rparr>)
        (fst (send_dispatch ((url_only ''/y'')\<lparr>cancelId := Some ''grp1''\<rparr>)
           \<lparr>pathname = ''/replicas'', search = [], now = 3\<rparr> initial_world))
        \<lparr>pathname = ''/replicas'', search = [], now = 4\<rparr>
        (Failed \<lparr>response = None, request = None, constructor_name = ''Cancel''\<rparr>)
        (cancelRequests ''grp1''
          (snd (send_dispatch ((url_only ''/y'')\<lparr>cancelId := Some ''grp1''\<rparr>)
             \<lparr>pathname = ''/replicas'', search = [], now = 3\<rparr> initial_world))))
      = Rejected (JObj [(''canceled'', JBool True)])
   \<and> alerts (fst (send_settle ((url_only ''/y'')\<lparr>cancelId := Some ''grp1''\<rparr>)
        (fst (send_dispatch ((url_only ''/y'')\<lparr>cancelId := Some ''grp1''\<rparr>)
           \<lparr>pathname = ''/replicas'', search = [], now = 3\<rparr> initial_world))
        \<lparr>pathname = ''/replicas'', search = [], now = 4\<rparr>
        (Failed \<lparr>response = None, request = None, constructor_name = ''Cancel''\<rparr>)
        (cancelRequests ''grp1''
          (snd (send_dispatch ((url_only ''/y'')\<lparr>cancelId := Some ''grp1''\<rparr>)
             \<lparr>pathname = ''/replicas'', search = [], now = 3\<rparr> initial_world)))))
      = []
   \<and> map (\<lambda>e. (fst e, log_kind (snd e), requestStatus (snd e)))
        (logEntries (fst (send_settle ((url_only ''/y'')\<lparr>cancelId := Some ''grp1''\<rparr>)
          (fst (send_dispatch ((url_only ''/y'')\<lparr>cancelId := Some ''grp1''\<rparr>)
             \<lparr>pathname = ''/replicas'', search = [], now = 3\<rparr> initial_world))
          \<lparr>pathname = ''/replicas'', search = [], now = 4\<rparr>
          (Failed \<lparr>response = None, request = None, constructor_name = ''Cancel''\<rparr>)
          (cancelRequests ''grp1''
            (snd (send_dispatch ((url_only ''/y'')\<lparr>cancelId := Some ''grp1''\<rparr>)
               \<lparr>pathname = ''/replicas'', search = [], now = 3\<rparr> initial_world))))))
      = [(3, REQUEST, None), (4, RESPONSE, Some (StatusLabel ''canceled''))]"
proof -
  let ?o = "(url_only ''/y'')\<lparr>cancelId := Some ''grp1''\<rparr>"
  let ?sent = "\<lparr>pathname = ''/replicas'', search = [], now = 3\<rparr>"
  let ?late = "\<lparr>pathname = ''/replicas'', search = [], now = 4\<rparr>"
  let ?c = "\<lparr>response = None, request = None, constructor_name = ''Cancel''\<rparr>"
  let ?d = "send_dispatch ?o ?sent initial_world"
  let ?w = "cancelRequests ''grp1'' (snd ?d)"
  have cl: "classify ?c = Cancelled" by (simp add: classify_def)
  have tag: "cancelId ?o = Some ''grp1'' \<and> ''grp1'' \<noteq> []" by simp
  have sk: "\<not> flag (skipLog ?o)" by (simp add: flag_def url_only_def)
  have i: "alerts initial_world = []" "logEntries initial_world = []"
    "nextHandle initial_world = 0" "cancelCalls initial_world = []"
    by (simp_all add: initial_world_def)
  note t = cancelled_send_rejects_quietly
    [OF cl, where options = ?o and tag = "''grp1''" and earlier = ?sent and b = ?late and w = initial_world]
  from t tag have inv: "nextHandle initial_world \<in> set (drop (length (cancelCalls initial_world))
      (cancelCalls ?w))"
    by blast
  from t tag have s: "snd (send_settle ?o (fst ?d) ?late (Failed ?c) ?w) = Rejected (JObj [(''canceled'', JBool True)])"
    by blast
  from t tag have a: "alerts (fst (send_settle ?o (fst ?d) ?late (Failed ?c) ?w)) = alerts initial_world"
    by blast
  from t tag have l: "logEntries (fst (send_settle ?o (fst ?d) ?late (Failed ?c) ?w))
      = logEntries initial_world
        @ (if flag (skipLog ?o) then [] else [(now ?sent, logEntry (fst ?d) REQUEST)])
        @ [(now ?late, (logEntry (fst ?d) RESPONSE)\<lparr>requestStatus := Some (StatusLabel ''canceled'')\<rparr>)]"
    by blast
  from inv have inv': "0 \<in> set (cancelCalls ?w)"
    unfolding i by simp
  from a have a': "alerts (fst (send_settle ?o (fst ?d) ?late (Failed ?c) ?w)) = []"
    unfolding i .
  have l': "map (\<lambda>e. (fst e, log_kind (snd e), requestStatus (snd e)))
        (logEntries (fst (send_settle ?o (fst ?d) ?late (Failed ?c) ?w)))
      = [(3, REQUEST, None), (4, RESPONSE, Some (StatusLabel ''canceled''))]"
    unfolding l i using sk by (simp add: logEntry_def)
  from cl inv' s a' l' show ?thesis by blast
qed

end
